theory Spec2Isabelle
  imports
    Main
    "HOL-Library.AList"
    "HOL-Library.Char_ord"
    "HOL-Library.List_Lexorder"
    "HOL-Library.Multiset"
    "HOL-Library.Sublist"
begin

section \<open>JavaScript values read from package manifests\<close>

text \<open>
  A \<^verbatim>\<open>package.json\<close> is whatever \<^verbatim>\<open>JSON.parse\<close> returns. An object is the list of
  its own properties (the first binding of a key is the one read); \<open>None\<close> of type
  \<open>json option\<close> stands for \<^verbatim>\<open>undefined\<close>. Numbers are integers here: only whether a
  number is zero is ever observed.

  \<open>JNative k\<close> is no value of a JSON text: it is what a read of the property \<open>k\<close> finds
  on the prototype chain when the object has no such property of its own, a built-in
  function such as \<^verbatim>\<open>Object.prototype.constructor\<close>, or the prototype itself for
  \<^verbatim>\<open>__proto__\<close>. The installer tests such a value and hands it on; it never reads a
  property of one.
\<close>

datatype json =
    JNull
  | JBool bool
  | JNum int
  | JStr string
  | JArr "json list"
  | JObj "(string \<times> json) list"
  | JNative string

datatype js_type = TUndefined | TObject | TBoolean | TNumber | TString | TFunction

fun typeof :: "json option \<Rightarrow> js_type" where
  "typeof None = TUndefined"
| "typeof (Some JNull) = TObject"
| "typeof (Some (JBool b)) = TBoolean"
| "typeof (Some (JNum n)) = TNumber"
| "typeof (Some (JStr s)) = TString"
| "typeof (Some (JArr xs)) = TObject"
| "typeof (Some (JObj kvs)) = TObject"
| "typeof (Some (JNative k)) = (if k = ''__proto__'' then TObject else TFunction)"

fun truthy :: "json option \<Rightarrow> bool" where
  "truthy None = False"
| "truthy (Some JNull) = False"
| "truthy (Some (JBool b)) = b"
| "truthy (Some (JNum n)) = (n \<noteq> 0)"
| "truthy (Some (JStr s)) = (s \<noteq> [])"
| "truthy (Some (JArr xs)) = True"
| "truthy (Some (JObj kvs)) = True"
| "truthy (Some (JNative k)) = True"

text \<open>\<^verbatim>\<open>a || b\<close>\<close>

definition or_js :: "json option \<Rightarrow> json option \<Rightarrow> json option" where
  "or_js a b = (if truthy a then a else b)"

definition is_digit :: "char \<Rightarrow> bool" where
  "is_digit c = (CHR ''0'' \<le> c \<and> c \<le> CHR ''9'')"

text \<open>A property key that is a canonical array index (\<^verbatim>\<open>"0"\<close>, \<^verbatim>\<open>"17"\<close>, not \<^verbatim>\<open>"017"\<close>).\<close>

definition array_index :: "string \<Rightarrow> nat option" where
  "array_index k =
     (if k \<noteq> [] \<and> list_all is_digit k \<and> (k = ''0'' \<or> hd k \<noteq> CHR ''0'')
      then Some (foldl (\<lambda>n c. 10 * n + (of_char c - 48)) 0 k)
      else None)"

text \<open>
  Reading an own property \<^verbatim>\<open>v[k]\<close> of a value that is neither null nor undefined. This
  is the whole read where no prototype has a property \<open>k\<close>: for the fixed names that the
  resolver reads from a manifest (\<^verbatim>\<open>exports\<close>, \<^verbatim>\<open>name\<close>, \<^verbatim>\<open>browser:module\<close>, \<^verbatim>\<open>module\<close>,
  \<^verbatim>\<open>main:esnext\<close>, \<^verbatim>\<open>browser\<close>, \<^verbatim>\<open>main\<close>, \<^verbatim>\<open>types\<close>, \<^verbatim>\<open>typings\<close>), for the conditions of an
  export-map entry (\<^verbatim>\<open>browser\<close>, \<^verbatim>\<open>import\<close>, \<^verbatim>\<open>default\<close>, \<^verbatim>\<open>require\<close>) and for the keys of an
  export map, which begin with \<^verbatim>\<open>./\<close>.
\<close>

fun get :: "json \<Rightarrow> string \<Rightarrow> json option" where
  "get (JObj kvs) k = map_of kvs k"
| "get (JArr xs) k =
     (if k = ''length'' then Some (JNum (int (length xs)))
      else case array_index k of
             Some i \<Rightarrow> (if i < length xs then Some (xs ! i) else None)
           | None \<Rightarrow> None)"
| "get (JStr s) k =
     (if k = ''length'' then Some (JNum (int (length s)))
      else case array_index k of
             Some i \<Rightarrow> (if i < length s then Some (JStr [s ! i]) else None)
           | None \<Rightarrow> None)"
| "get JNull k = None"
| "get (JBool b) k = None"
| "get (JNum n) k = None"
| "get (JNative n) k = None"

text \<open>
  The names of the properties of \<^verbatim>\<open>Object.prototype\<close>, which every object written as
  \<^verbatim>\<open>{...}\<close> or parsed from JSON inherits.
\<close>

definition object_prototype_keys :: "string list" where
  "object_prototype_keys =
     [''constructor'', ''__defineGetter__'', ''__defineSetter__'', ''hasOwnProperty'',
      ''__lookupGetter__'', ''__lookupSetter__'', ''isPrototypeOf'', ''propertyIsEnumerable'',
      ''toString'', ''valueOf'', ''__proto__'', ''toLocaleString'']"

text \<open>
  \<^verbatim>\<open>obj[k] = v\<close> on an object created by \<^verbatim>\<open>{}\<close>, as it changes the own properties of the
  object. The name \<^verbatim>\<open>__proto__\<close> reaches the setter inherited from \<^verbatim>\<open>Object.prototype\<close>,
  which creates no property (it ignores a string; given an object it would replace the
  prototype, and the installer reads none of the objects it fills through a prototype).
\<close>

definition assign :: "string \<Rightarrow> 'a \<Rightarrow> (string \<times> 'a) list \<Rightarrow> (string \<times> 'a) list" where
  "assign k v obj = (if k = ''__proto__'' then obj else AList.update k v obj)"

text \<open>\<^verbatim>\<open>v?.k\<close>: undefined when \<open>v\<close> is null or undefined.\<close>

fun opt_get :: "json option \<Rightarrow> string \<Rightarrow> json option" where
  "opt_get None k = None"
| "opt_get (Some JNull) k = None"
| "opt_get (Some v) k = get v k"

text \<open>A string or null location, as \<^verbatim>\<open>resolveDependencyManifest\<close> returns it, used as a condition.\<close>

fun truthy_str :: "string option \<Rightarrow> bool" where
  "truthy_str None = False"
| "truthy_str (Some s) = (s \<noteq> [])"

section \<open>The data of the installer\<close>

datatype dep_type = JS | ASSET | IGNORE

record DependencyLoc =
  type :: dep_type
  loc :: string

text \<open>
  What \<^verbatim>\<open>resolveWebDependency\<close> throws. The messages of the source are kept as
  constructors with the values they interpolate.
\<close>

datatype error =
    ModuleNotFound string
      \<comment> \<open>\<^verbatim>\<open>require.resolve\<close> found nothing for this request\<close>
  | ExportsEntryMissing string string
      \<comment> \<open>Package "p" exists but package.json "exports" does not include entry for "./e".\<close>
  | PackageNotFound string string
      \<comment> \<open>\<^verbatim>\<open>ErrorWithHint\<close>: Package "dep" not found, with the hint\<close>
  | ReactWorkaround
      \<comment> \<open>React workaround packages no longer needed!\<close>
  | UnexpectedEntrypoint string "json option"
  | TypeError
      \<comment> \<open>a property read of null, or a call of something that is no function\<close>
  | RollupFailure string
      \<comment> \<open>an error of the bundler that names no file\<close>

record InstallTarget =
  specifier :: string
  all :: bool
  default :: bool
  namespace :: bool
  named :: "string list"

text \<open>The \<^verbatim>\<open>imports\<close> object of an import map or lockfile, in insertion order.\<close>

type_synonym ImportMap = "(string \<times> string) list"

text \<open>
  The fields of \<^verbatim>\<open>SnowpackConfig\<close> that the installer and the scanner read themselves.
  \<^verbatim>\<open>alias\<close> has the name \<^verbatim>\<open>installAlias\<close> that \<^verbatim>\<open>install\<close> gives it;
  \<^verbatim>\<open>installOptions.dest\<close> and \<^verbatim>\<open>installOptions.externalPackage\<close> are written flat. The
  other install options only configure plugins of the bundler.
\<close>

record SnowpackConfig =
  webDependencies :: "(string \<times> string) list option"
  knownEntrypoints :: "string list option"
  installAlias :: "(string \<times> string) list"
  mount :: "(string \<times> string) list"
  exclude :: "string list"
  dest :: string
  externalPackage :: "string list"

datatype alias_type = Package | Path | Url

record AliasEntry =
  alias_from :: string
  alias_to :: string
  alias_type :: alias_type

text \<open>
  What the bundler reports: the warnings handed to \<^verbatim>\<open>onwarn\<close> and, when it throws, the
  error with \<^verbatim>\<open>err.loc?.file || err.id\<close> and the message.
\<close>

datatype rollup_warning =
    CIRCULAR_DEPENDENCY string
  | CATCH_UNRESOLVED "string option" string
      \<comment> \<open>\<^verbatim>\<open>PLUGIN_WARNING\<close> of \<^verbatim>\<open>snowpack:rollup-plugin-catch-unresolved\<close>: id and message\<close>
  | OTHER_WARNING string

record RollupError =
  errFilePath :: "string option"
  errMessage :: string

record InputOptions =
  input :: "(string \<times> json) list"
  external :: "string \<Rightarrow> bool"

text \<open>
  The functions of Node, of npm libraries and of \<^verbatim>\<open>../util.js\<close> that the installer calls.
  They read the file system or are not part of the sources at hand, so the model takes
  them as the fields of one record.
\<close>

record host =
  extname :: "string \<Rightarrow> string"
    \<comment> \<open>\<^verbatim>\<open>path.extname\<close>\<close>
  validForNewPackages :: "string \<Rightarrow> bool"
    \<comment> \<open>\<^verbatim>\<open>validatePackageName(s).validForNewPackages\<close>\<close>
  parsePackageImportSpecifier :: "string \<Rightarrow> string \<times> string"
  resolveDependencyManifest :: "string \<Rightarrow> string option \<times> json option"
    \<comment> \<open>the location and the parsed contents of \<^verbatim>\<open>package.json\<close>, from \<^verbatim>\<open>cwd\<close>\<close>
  requireResolveFrom :: "string \<Rightarrow> string option"
    \<comment> \<open>\<^verbatim>\<open>require.resolve(x, {paths: [cwd]})\<close>; \<open>None\<close> when it throws\<close>
  requireResolve :: "string \<Rightarrow> string option"
    \<comment> \<open>\<^verbatim>\<open>require.resolve(x)\<close>; \<open>None\<close> when it throws\<close>
  pathJoin :: "string list \<Rightarrow> string"
    \<comment> \<open>\<^verbatim>\<open>path.join\<close>\<close>
  sanitizePackageName :: "string \<Rightarrow> string"
  findMatchingAliasEntry :: "SnowpackConfig \<Rightarrow> string \<Rightarrow> AliasEntry option"
  nodeModulesInstalled :: bool
    \<comment> \<open>\<^verbatim>\<open>findUp.sync('node_modules', {cwd, type: 'directory'})\<close> found one\<close>
  pnp :: bool
    \<comment> \<open>\<^verbatim>\<open>process.versions.pnp\<close> is set\<close>
  rollup :: "InputOptions \<Rightarrow> rollup_warning list \<times> RollupError option"
    \<comment> \<open>\<^verbatim>\<open>rollup(inputOptions)\<close> and \<^verbatim>\<open>packageBundle.write(outputOptions)\<close>\<close>
  resolveTargetsFromRemoteCDN ::
    "ImportMap option \<Rightarrow> SnowpackConfig \<Rightarrow> string + ImportMap option"
    \<comment> \<open>\<open>Inl\<close>: the promise is rejected, with the message\<close>
  IMPORT_MAP_FILE :: string
  LOCK_FILE :: string
  arrayPrototypeKeys :: "string list"
    \<comment> \<open>the names of the properties of \<^verbatim>\<open>Array.prototype\<close>, which grow with the version of Node\<close>

section \<open>The resolver\<close>

text \<open>
  \<^verbatim>\<open>v[k]\<close> for an object or an array \<open>v\<close> and a key that is not fixed: an own property, or
  else one that \<open>v\<close> inherits.
\<close>

definition inherited :: "host \<Rightarrow> json \<Rightarrow> string \<Rightarrow> json option" where
  "inherited h v k =
     (case v of
        JObj kvs \<Rightarrow> (if k \<in> set object_prototype_keys then Some (JNative k) else None)
      | JArr xs \<Rightarrow>
          (if k \<in> set (arrayPrototypeKeys h) \<or> k \<in> set object_prototype_keys
           then Some (JNative k) else None)
      | _ \<Rightarrow> None)"

definition lookup :: "host \<Rightarrow> json \<Rightarrow> string \<Rightarrow> json option" where
  "lookup h v k = (case get v k of Some x \<Rightarrow> Some x | None \<Rightarrow> inherited h v k)"

text \<open>CASE 1: the specifier points directly to a file within a package.\<close>

definition isDirectFile :: "host \<Rightarrow> string \<Rightarrow> bool" where
  "isDirectFile h dep = (extname h dep \<noteq> [] \<and> \<not> validForNewPackages h dep)"

definition resolveDirectFile :: "host \<Rightarrow> string \<Rightarrow> error + DependencyLoc" where
  "resolveDirectFile h dep =
     (let isJSFile = (extname h dep \<in> set [''.js'', ''.mjs'', ''.cjs''])
      in case requireResolveFrom h dep of
           None \<Rightarrow> Inl (ModuleNotFound dep)
         | Some l \<Rightarrow> Inr \<lparr>type = (if isJSFile then JS else ASSET), loc = l\<rparr>)"

text \<open>
  CASE 2: the value selected from an entry of the export map,
  \<^verbatim>\<open>e?.browser || e?.import || e?.default || e?.require || e\<close>.
\<close>

definition exportMapValue :: "json option \<Rightarrow> json option" where
  "exportMapValue exportMapEntry =
     or_js (or_js (or_js (or_js (opt_get exportMapEntry ''browser'')
                                (opt_get exportMapEntry ''import''))
                         (opt_get exportMapEntry ''default''))
                  (opt_get exportMapEntry ''require''))
           exportMapEntry"

text \<open>
  The export-map step. \<open>None\<close>: the step does not apply and the cascade goes on;
  \<open>Some r\<close>: the step has decided, with a location or with the error thrown.
\<close>

definition resolveExportMap :: "host \<Rightarrow> string \<Rightarrow> (error + DependencyLoc) option" where
  "resolveExportMap h dep =
     (let (packageName, packageEntrypoint) = parsePackageImportSpecifier h dep
      in if packageEntrypoint = [] then None
         else
           let (packageManifestLoc, packageManifest) = resolveDependencyManifest h packageName
           in if truthy_str packageManifestLoc \<and> truthy packageManifest
                 \<and> truthy (opt_get packageManifest ''exports'')
              then
                (let exportMapEntry =
                       opt_get (opt_get packageManifest ''exports'') (''./'' @ packageEntrypoint);
                     v = exportMapValue exportMapEntry
                 in case v of
                      Some (JStr s) \<Rightarrow>
                        Some (Inr \<lparr>type = JS,
                                   loc = pathJoin h [the packageManifestLoc, ''..'', s]\<rparr>)
                    | _ \<Rightarrow> Some (Inl (ExportsEntryMissing packageName packageEntrypoint)))
              else None)"

text \<open>
  CASE 3: the entry point named by the manifest \<open>m\<close> of the specifier itself. The
  result is the entry and whether it is the implicit \<^verbatim>\<open>index.js\<close>.
\<close>

definition probeEntrypointObject :: "host \<Rightarrow> json \<Rightarrow> string \<Rightarrow> json option" where
  "probeEntrypointObject h obj dep =
     or_js (or_js (or_js (or_js (lookup h obj dep) (lookup h obj ''./index.js''))
                         (lookup h obj ''./index''))
                  (lookup h obj ''./''))
           (lookup h obj ''.'')"

definition findEntrypoint :: "host \<Rightarrow> json \<Rightarrow> string \<Rightarrow> error + (string \<times> bool)" where
  "findEntrypoint h depManifest dep =
     (let found0 = or_js (or_js (or_js (get depManifest ''browser:module'')
                                       (get depManifest ''module''))
                                (get depManifest ''main:esnext''))
                         (get depManifest ''browser'')
      in case (if typeof found0 = TObject
               then (case found0 of
                       Some JNull \<Rightarrow> Inl TypeError
                     | Some obj \<Rightarrow> Inr (probeEntrypointObject h obj dep)
                     | None \<Rightarrow> Inr None)
               else Inr found0) of
           Inl e \<Rightarrow> Inl e
         | Inr found1 \<Rightarrow>
             (let found2 = (if \<not> truthy found1 then get depManifest ''main'' else found1);
                  isImplicitEntrypoint = (\<not> truthy found2);
                  found3 = (if isImplicitEntrypoint then Some (JStr ''index.js'') else found2)
              in case found3 of
                   Some (JStr s) \<Rightarrow> Inr (s, isImplicitEntrypoint)
                 | _ \<Rightarrow> Inl (UnexpectedEntrypoint dep found3)))"

text \<open>CASE 5: the name of a React workaround package.\<close>

definition checkReactWorkaround :: "json \<Rightarrow> error option" where
  "checkReactWorkaround depManifest =
     (let name = get depManifest ''name''
      in if truthy name
         then (case name of
                 Some (JStr s) \<Rightarrow>
                   (if prefix ''@reactesm'' s \<or> prefix ''@pika/react'' s
                    then Some ReactWorkaround else None)
               | _ \<Rightarrow> Some TypeError)
         else None)"

definition resolveManifestEntry ::
  "host \<Rightarrow> string \<Rightarrow> string option \<Rightarrow> json \<Rightarrow> error + DependencyLoc" where
  "resolveManifestEntry h dep depManifestLoc depManifest =
     (case checkReactWorkaround depManifest of
        Some e \<Rightarrow> Inl e
      | None \<Rightarrow>
          (case findEntrypoint h depManifest dep of
             Inl e \<Rightarrow> Inl e
           | Inr (foundEntrypoint, isImplicitEntrypoint) \<Rightarrow>
               (let request =
                      pathJoin h [(if truthy_str depManifestLoc then the depManifestLoc else []),
                                  ''..'', foundEntrypoint]
                in case requireResolve h request of
                     Some l \<Rightarrow> Inr \<lparr>type = JS, loc = l\<rparr>
                   | None \<Rightarrow>
                       (if isImplicitEntrypoint
                           \<and> (truthy (get depManifest ''types'')
                                \<or> truthy (get depManifest ''typings''))
                        then Inr \<lparr>type = IGNORE, loc = []\<rparr>
                        else Inl (ModuleNotFound request)))))"

text \<open>CASES 3 and 4: the manifest of the specifier, or the file itself when there is none.\<close>

definition resolveManifestOrFile :: "host \<Rightarrow> string \<Rightarrow> error + DependencyLoc" where
  "resolveManifestOrFile h dep =
     (let (depManifestLoc, depManifest) = resolveDependencyManifest h dep
      in case (if \<not> truthy depManifest then requireResolveFrom h dep else None) of
           Some maybeLoc \<Rightarrow> Inr \<lparr>type = JS, loc = maybeLoc\<rparr>
         | None \<Rightarrow>
             (if \<not> truthy_str depManifestLoc \<or> \<not> truthy depManifest
              then Inl (PackageNotFound dep
                          (if truthy_str depManifestLoc then the depManifestLoc else []))
              else resolveManifestEntry h dep depManifestLoc (the depManifest)))"

definition resolveWebDependency :: "host \<Rightarrow> string \<Rightarrow> error + DependencyLoc" where
  "resolveWebDependency h dep =
     (if isDirectFile h dep then resolveDirectFile h dep
      else case resolveExportMap h dep of
             Some r \<Rightarrow> r
           | None \<Rightarrow> resolveManifestOrFile h dep)"

section \<open>Installing\<close>

text \<open>checks if the \<open>importUrl\<close> is under the \<open>packageName\<close>\<close>

definition isImportOfPackage :: "string \<Rightarrow> string \<Rightarrow> bool" where
  "isImportOfPackage importUrl packageName =
     (packageName = importUrl \<or> prefix (packageName @ ''/'') importUrl)"

text \<open>
  The regular expressions \<^verbatim>\<open>/\.js$/i\<close> and \<^verbatim>\<open>/\.m?js$/i\<close>: a suffix of the whole string,
  letters in either case.
\<close>

definition lower :: "char \<Rightarrow> char" where
  "lower c = (if CHR ''A'' \<le> c \<and> c \<le> CHR ''Z'' then char_of (of_char c + (32::nat)) else c)"

definition ends_with_ci :: "string \<Rightarrow> string \<Rightarrow> bool" where
  "ends_with_ci suf s =
     (length suf \<le> length s \<and> map lower (drop (length s - length suf) s) = suf)"

definition getWebDependencyName :: "host \<Rightarrow> string \<Rightarrow> string" where
  "getWebDependencyName h dep =
     (if validForNewPackages h dep
      then (if ends_with_ci ''.js'' dep then take (length dep - 3) dep @ ''js'' else dep)
      else (if ends_with_ci ''.mjs'' dep then take (length dep - 4) dep
            else if ends_with_ci ''.js'' dep then take (length dep - 3) dep
            else dep))"

text \<open>\<^verbatim>\<open>externalPackages.some((packageName) => isImportOfPackage(id, packageName))\<close>\<close>

definition isExternal :: "SnowpackConfig \<Rightarrow> string \<Rightarrow> bool" where
  "isExternal config importUrl =
     list_ex (\<lambda>packageName. isImportOfPackage importUrl packageName) (externalPackage config)"

definition resolveAlias :: "host \<Rightarrow> SnowpackConfig \<Rightarrow> string \<Rightarrow> string" where
  "resolveAlias h config spec =
     (case findMatchingAliasEntry h config spec of
        Some aliasEntry \<Rightarrow> (if alias_type aliasEntry = Package then alias_to aliasEntry else spec)
      | None \<Rightarrow> spec)"

text \<open>\<^verbatim>\<open>new Set(xs)\<close>, as the list of its elements in insertion order.\<close>

definition js_Set :: "'a list \<Rightarrow> 'a list" where
  "js_Set xs = fold (\<lambda>x acc. if x \<in> set acc then acc else acc @ [x]) xs []"

definition allInstallSpecifiers :: "host \<Rightarrow> SnowpackConfig \<Rightarrow> InstallTarget list \<Rightarrow> string list" where
  "allInstallSpecifiers h config installTargets =
     js_Set (sort (map (resolveAlias h config)
                    (map specifier
                      (filter (\<lambda>dep. \<not> isExternal config (specifier dep)) installTargets))))"

datatype InstallResultCode = SUCCESS | ASSET_RESULT | FAIL

text \<open>
  The objects the loop of \<^verbatim>\<open>install\<close> fills, and the module's \<^verbatim>\<open>installResults\<close>. An
  object is the list of its properties in insertion order (JavaScript lists the keys that
  are array indices first; this changes the order of a list here, never its elements).
  \<^verbatim>\<open>installTargetsMap\<close> is written and never read; it is left out.
\<close>

record install_vars =
  installEntrypoints :: "(string \<times> json) list"
  assetEntrypoints :: "(string \<times> string) list"
  importMapImports :: ImportMap
  installResults :: "(string \<times> InstallResultCode) list"

definition initial_vars :: install_vars where
  "initial_vars = \<lparr>installEntrypoints = [], assetEntrypoints = [], importMapImports = [],
                    installResults = []\<rparr>"

text \<open>
  \<^verbatim>\<open>lockfile && lockfile.imports[installSpecifier]\<close>, when truthy: the URL the lockfile
  has for the specifier, or what \<^verbatim>\<open>lockfile.imports\<close> inherits under that name.
\<close>

definition lockfileEntry :: "ImportMap option \<Rightarrow> string \<Rightarrow> json option" where
  "lockfileEntry lockfile installSpecifier =
     (case lockfile of
        None \<Rightarrow> None
      | Some lockImports \<Rightarrow>
          (case map_of lockImports installSpecifier of
             Some url \<Rightarrow> (if url \<noteq> [] then Some (JStr url) else None)
           | None \<Rightarrow>
               (if installSpecifier \<in> set object_prototype_keys
                then Some (JNative installSpecifier) else None)))"

text \<open>expand to all aliases if applies\<close>

definition expandAliases :: "SnowpackConfig \<Rightarrow> string \<Rightarrow> string \<Rightarrow> ImportMap \<Rightarrow> ImportMap" where
  "expandAliases config installSpecifier targetName im =
     fold (\<lambda>(key, val) acc.
             if val = installSpecifier
             then assign key (''./'' @ targetName @ ''.js'') acc else acc)
          (installAlias config) im"

text \<open>One round of the loop; \<open>Inl\<close> is the error caught, after which \<^verbatim>\<open>install\<close> gives up.\<close>

definition install_step ::
  "host \<Rightarrow> SnowpackConfig \<Rightarrow> ImportMap option \<Rightarrow> string \<Rightarrow> install_vars \<Rightarrow> error + install_vars"
where
  "install_step h config lockfile installSpecifier st =
     (let targetName = getWebDependencyName h installSpecifier;
          proxiedName = sanitizePackageName h targetName
      in case lockfileEntry lockfile installSpecifier of
           Some url \<Rightarrow>
             Inr (st\<lparr>installEntrypoints := assign targetName url (installEntrypoints st),
                     importMapImports := assign installSpecifier (''./'' @ proxiedName @ ''.js'')
                                  (importMapImports st),
                     installResults := installResults st @ [(targetName, SUCCESS)]\<rparr>)
         | None \<Rightarrow>
             (case resolveWebDependency h installSpecifier of
                Inl err \<Rightarrow> Inl err
              | Inr d \<Rightarrow>
                  (case type d of
                     JS \<Rightarrow>
                       Inr (st\<lparr>installEntrypoints :=
                                  assign targetName (JStr (loc d)) (installEntrypoints st),
                               importMapImports :=
                                  expandAliases config installSpecifier targetName
                                    (assign installSpecifier (''./'' @ proxiedName @ ''.js'')
                                       (importMapImports st)),
                               installResults :=
                                  installResults st @ [(installSpecifier, SUCCESS)]\<rparr>)
                   | ASSET \<Rightarrow>
                       Inr (st\<lparr>assetEntrypoints :=
                                  assign targetName (loc d) (assetEntrypoints st),
                               importMapImports :=
                                  assign installSpecifier (''./'' @ proxiedName)
                                    (importMapImports st),
                               installResults :=
                                  installResults st @ [(installSpecifier, ASSET_RESULT)]\<rparr>)
                   | IGNORE \<Rightarrow> Inr st)))"

fun install_loop ::
  "host \<Rightarrow> SnowpackConfig \<Rightarrow> ImportMap option \<Rightarrow> string list \<Rightarrow> install_vars \<Rightarrow> error + install_vars"
where
  "install_loop h config lockfile [] st = Inr st"
| "install_loop h config lockfile (installSpecifier # rest) st =
     (case install_step h config lockfile installSpecifier st of
        Inl err \<Rightarrow> Inl err
      | Inr st' \<Rightarrow> install_loop h config lockfile rest st')"

text \<open>
  What a run does to the world, in order. Updates of the spinner's text are not
  recorded.
\<close>

datatype log_message =
    NoNodeModules
  | ResolveFailed error
  | UnresolvedImport "string option" string
  | BundleFailed string string
  | RemoteFailed string
  | NothingToInstall

datatype event =
    LogError log_message
  | Rimraf string
  | Rollup "(string \<times> json) list"
  | WriteLockfile string ImportMap
  | CopyFile string string
  | GlobSync string
  | ReadFile string
  | ProcessExit

text \<open>\<^verbatim>\<open>{success: false; importMap: null} | {success: true; importMap: ImportMap}\<close>\<close>

datatype InstallResult = FAILED_INSTALL_RETURN | Installed ImportMap

definition inputOptions :: "SnowpackConfig \<Rightarrow> install_vars \<Rightarrow> InputOptions" where
  "inputOptions config st =
     \<lparr>input = installEntrypoints st,
      external = (\<lambda>moduleId. list_ex (\<lambda>packageName. isImportOfPackage moduleId packageName)
                                (externalPackage config))\<rparr>"

text \<open>\<^verbatim>\<open>onwarn\<close>: only the warnings of the unresolved catcher are logged as errors.\<close>

fun onwarn :: "rollup_warning \<Rightarrow> event list" where
  "onwarn (CIRCULAR_DEPENDENCY importer) = []"
| "onwarn (CATCH_UNRESOLVED wid message) = [LogError (UnresolvedImport wid message)]"
| "onwarn (OTHER_WARNING message) = []"

text \<open>The part of \<^verbatim>\<open>install\<close> after the loop, once there is something to install.\<close>

definition bundleAndEmit ::
  "host \<Rightarrow> SnowpackConfig \<Rightarrow> install_vars \<Rightarrow> event list \<times> (error + InstallResult)" where
  "bundleAndEmit h config st =
     (let (evs, thrown) =
            (if installEntrypoints st \<noteq> []
             then (let (warnings, err) = rollup h (inputOptions config st)
                   in (Rollup (installEntrypoints st) # concat (map onwarn warnings), err))
             else ([], None))
      in case thrown of
           Some err \<Rightarrow>
             (if truthy_str (errFilePath err)
              then (evs @ [LogError (BundleFailed (the (errFilePath err)) (errMessage err))],
                    Inr FAILED_INSTALL_RETURN)
              else (evs, Inl (RollupFailure (errMessage err))))
         | None \<Rightarrow>
             (evs @ [WriteLockfile (pathJoin h [dest config, IMPORT_MAP_FILE h]) (importMapImports st)]
                  @ map (\<lambda>(assetName, assetLoc).
                           CopyFile assetLoc (dest config @ ''/'' @ sanitizePackageName h assetName))
                        (assetEntrypoints st),
              Inr (Installed (importMapImports st))))"

definition install ::
  "host \<Rightarrow> InstallTarget list \<Rightarrow> ImportMap option \<Rightarrow> SnowpackConfig
     \<Rightarrow> event list \<times> (error + InstallResult)" where
  "install h installTargets lockfile config =
     (if webDependencies config = None \<and> \<not> pnp h \<and> \<not> nodeModulesInstalled h
      then ([LogError NoNodeModules], Inr FAILED_INSTALL_RETURN)
      else case install_loop h config lockfile
                  (allInstallSpecifiers h config installTargets) initial_vars of
             Inl err \<Rightarrow> ([LogError (ResolveFailed err)], Inr FAILED_INSTALL_RETURN)
           | Inr st \<Rightarrow>
               (if installEntrypoints st = [] \<and> assetEntrypoints st = []
                then ([], Inr (Installed (importMapImports st)))
                else bundleAndEmit h config st))"

section \<open>Running the installer\<close>

record InstallRunResult =
  success :: bool
  hasError :: bool
  importMap :: "ImportMap option"
  newLockfile :: "ImportMap option"

text \<open>How a call ends: it returns, it throws, or the process exits.\<close>

datatype 'a outcome = Returned 'a | Thrown error | Exited

fun isLogError :: "event \<Rightarrow> bool" where
  "isLogError (LogError m) = True"
| "isLogError e = False"

definition run ::
  "host \<Rightarrow> SnowpackConfig \<Rightarrow> ImportMap option \<Rightarrow> InstallTarget list
     \<Rightarrow> event list \<times> InstallRunResult outcome" where
  "run h config lockfile installTargets =
     (if installTargets = []
      then ([], Returned \<lparr>success = True, hasError = False, importMap = Some [],
                          newLockfile = None\<rparr>)
      else
        case (case webDependencies config of
                Some deps \<Rightarrow>
                  (if deps \<noteq> [] then resolveTargetsFromRemoteCDN h lockfile config
                   else Inr None)
              | None \<Rightarrow> Inr None) of
          Inl message \<Rightarrow> ([LogError (RemoteFailed message), ProcessExit], Exited)
        | Inr newLock \<Rightarrow>
            (let (evs, r) = install h installTargets newLock config
             in case r of
                  Inl err \<Rightarrow> (Rimraf (dest config) # evs, Thrown err)
                | Inr FAILED_INSTALL_RETURN \<Rightarrow>
                    (Rimraf (dest config) # evs,
                     Returned \<lparr>success = False, hasError = list_ex isLogError evs,
                               importMap = None, newLockfile = newLock\<rparr>)
                | Inr (Installed im) \<Rightarrow>
                    (Rimraf (dest config) # evs,
                     Returned \<lparr>success = True, hasError = list_ex isLogError evs,
                               importMap = Some im, newLockfile = newLock\<rparr>)))"

section \<open>Scanning imports\<close>

text \<open>
  An import as \<^verbatim>\<open>es-module-lexer\<close> reports it: the bounds of the specifier
  (\<^verbatim>\<open>s\<close>, \<^verbatim>\<open>e\<close>) and of the statement (\<^verbatim>\<open>ss\<close>, \<^verbatim>\<open>se\<close>), and \<^verbatim>\<open>d\<close>: \<open>-1\<close> for a static import,
  \<open>-2\<close> for \<^verbatim>\<open>import.meta\<close>, the position of the dynamic import otherwise.
\<close>

record ImportSpecifier =
  imp_s :: nat
  imp_e :: nat
  imp_ss :: nat
  imp_se :: nat
  imp_d :: int

text \<open>\<^verbatim>\<open>str.substring(a, b)\<close>: the bounds are swapped when out of order and cut at the length.\<close>

definition substring :: "string \<Rightarrow> nat \<Rightarrow> nat \<Rightarrow> string" where
  "substring str a b =
     (let lo = min (min a b) (length str); hi = min (max a b) (length str)
      in take (hi - lo) (drop lo str))"

text \<open>
  The character classes of the regular expression \<^verbatim>\<open>/^\s*['"](.*)['"]\s*$/m\<close>. A
  character is a code unit below 256: line terminators are LF and CR, white space is
  TAB, LF, VT, FF, CR, space and the no-break space.
\<close>

definition is_line_terminator :: "char \<Rightarrow> bool" where
  "is_line_terminator c = (c = CHR 0x0A \<or> c = CHR 0x0D)"

definition is_js_space :: "char \<Rightarrow> bool" where
  "is_js_space c = (c \<in> set [CHR 0x09, CHR 0x0A, CHR 0x0B, CHR 0x0C, CHR 0x0D, CHR 0x20, CHR 0xA0])"

definition is_quote :: "char \<Rightarrow> bool" where
  "is_quote c = (c = CHR 0x27 \<or> c = CHR 0x22)"

text \<open>
  \<^verbatim>\<open>\s*$\<close> at the start of \<open>rest\<close>: after the white space taken, the input ends or a line
  terminator follows. The white space may be given back, so it is enough that the
  whole rest is white space or that some of the white space is a line terminator.
\<close>

definition trailing_ok :: "string \<Rightarrow> bool" where
  "trailing_ok rest =
     (let w = takeWhile is_js_space rest
      in length w = length rest \<or> list_ex is_line_terminator w)"

text \<open>
  A match that starts at the beginning of \<open>str\<close>, with the text of the group. \<^verbatim>\<open>\s*\<close> takes
  all the white space there is (what follows must be a quote, which is no white space);
  \<^verbatim>\<open>.*\<close> takes as much of the line as it can, longest first, such that a quote and
  \<^verbatim>\<open>\s*$\<close> follow.
\<close>

definition match_at :: "string \<Rightarrow> string option" where
  "match_at str =
     (case dropWhile is_js_space str of
        [] \<Rightarrow> None
      | q # rest \<Rightarrow>
          (if is_quote q
           then (let line = takeWhile (\<lambda>c. \<not> is_line_terminator c) rest
                 in case find (\<lambda>j. j < length rest \<and> is_quote (rest ! j)
                                    \<and> trailing_ok (drop (Suc j) rest))
                              (rev [0..<Suc (length line)]) of
                      Some j \<Rightarrow> Some (take j rest)
                    | None \<Rightarrow> None)
           else None))"

text \<open>The positions where \<^verbatim>\<open>^\<close> matches under the flag \<^verbatim>\<open>m\<close>, in order.\<close>

definition line_starts :: "string \<Rightarrow> nat list" where
  "line_starts str = 0 # map Suc (filter (\<lambda>p. is_line_terminator (str ! p)) [0..<length str])"

text \<open>\<^verbatim>\<open>importStatement.match(/^\s*['"](.*)['"]\s*$/m)\<close>: the group of the leftmost match.\<close>

definition match_string_literal :: "string \<Rightarrow> string option" where
  "match_string_literal str =
     (case List.map_filter (\<lambda>p. match_at (drop p str)) (line_starts str) of
        [] \<Rightarrow> None
      | g # _ \<Rightarrow> Some g)"

definition getWebModuleSpecifierFromCode :: "string \<Rightarrow> ImportSpecifier \<Rightarrow> string option" where
  "getWebModuleSpecifierFromCode code imp =
     (if imp_d imp = - 2 then None
      else if imp_d imp = - 1 then Some (substring code (imp_s imp) (imp_e imp))
      else match_string_literal (substring code (imp_s imp) (imp_e imp)))"


text \<open>
  The regular expressions of \<^verbatim>\<open>scan-imports.ts\<close> and \<^verbatim>\<open>util.js\<close> that are matched by the
  host's engine. (The one of \<open>getWebModuleSpecifierFromCode\<close> is modelled above.)
\<close>

datatype source_regex =
    BARE_SPECIFIER_REGEX
  | ESM_IMPORT_REGEX
  | ESM_DYNAMIC_IMPORT_REGEX
  | HAS_NAMED_IMPORTS_REGEX
  | STRIP_AS
  | DEFAULT_IMPORT_REGEX
  | IMPORT_TYPE_REGEX
      \<comment> \<open>\<^verbatim>\<open>/^import\s+type/\<close>\<close>
  | MACRO_REGEX
      \<comment> \<open>\<^verbatim>\<open>/[./]macro(\.js)?$/\<close>\<close>
  | HTML_JS_REGEX

record SnowpackSourceFile =
  baseExt :: string
  expandedExt :: string
  locOnDisk :: string
  contents :: string

text \<open>The functions of Node and of npm libraries that the scanner calls.\<close>

record scan_host =
  parse :: "string \<Rightarrow> ImportSpecifier list option"
    \<comment> \<open>the imports \<^verbatim>\<open>es-module-lexer\<close> finds; \<open>None\<close> when it throws\<close>
  stripComments :: "string \<Rightarrow> string"
  regexTest :: "source_regex \<Rightarrow> string \<Rightarrow> bool"
    \<comment> \<open>\<^verbatim>\<open>regex.test(str)\<close>\<close>
  regexGroup :: "source_regex \<Rightarrow> nat \<Rightarrow> string \<Rightarrow> string option"
    \<comment> \<open>\<^verbatim>\<open>str.match(regex)[n]\<close>; \<open>None\<close> when there is no match\<close>
  regexExecAll :: "source_regex \<Rightarrow> nat \<Rightarrow> string \<Rightarrow> string list"
    \<comment> \<open>group \<open>n\<close> of every match, by \<^verbatim>\<open>regex.exec(str)\<close> until it returns null\<close>
  regexRemove :: "source_regex \<Rightarrow> string \<Rightarrow> string"
    \<comment> \<open>\<^verbatim>\<open>str.replace(regex, '')\<close>\<close>
  localeCompare :: "string \<Rightarrow> string \<Rightarrow> int"
  hasMagic :: "string \<Rightarrow> bool"
    \<comment> \<open>\<^verbatim>\<open>glob.hasMagic\<close>\<close>
  globSync :: "string \<Rightarrow> string list \<Rightarrow> string \<Rightarrow> string list"
    \<comment> \<open>\<^verbatim>\<open>glob.sync(pattern, {ignore, cwd, nodir: true})\<close>\<close>
  getExt :: "string \<Rightarrow> string \<times> string"
    \<comment> \<open>\<^verbatim>\<open>baseExt\<close> and \<^verbatim>\<open>expandedExt\<close>\<close>
  readFile :: "string \<Rightarrow> string"
  pathResolve :: "string \<Rightarrow> string"
    \<comment> \<open>\<^verbatim>\<open>nodePath.resolve(cwd, p)\<close>\<close>

definition stripJsExtension :: "string \<Rightarrow> string" where
  "stripJsExtension dep =
     (if ends_with_ci ''.mjs'' dep then take (length dep - 4) dep
      else if ends_with_ci ''.js'' dep then take (length dep - 3) dep
      else dep)"

definition createInstallTarget :: "string \<Rightarrow> bool \<Rightarrow> InstallTarget" where
  "createInstallTarget spec a =
     \<lparr>specifier = spec, all = a, default = False, namespace = False, named = []\<rparr>"

definition removeSpecifierQueryString :: "string \<Rightarrow> string" where
  "removeSpecifierQueryString spec = takeWhile (\<lambda>c. c \<noteq> CHR ''?'') spec"

text \<open>\<^verbatim>\<open>hay.indexOf(needle)\<close>; \<open>None\<close> for \<open>-1\<close>.\<close>

fun indexOf :: "string \<Rightarrow> string \<Rightarrow> nat option" where
  "indexOf needle [] = (if needle = [] then Some 0 else None)"
| "indexOf needle (c # cs) =
     (if prefix needle (c # cs) then Some 0 else map_option Suc (indexOf needle cs))"

definition WEB_MODULES_TOKEN :: string where
  "WEB_MODULES_TOKEN = ''web_modules/''"

definition parseWebModuleSpecifier ::
  "scan_host \<Rightarrow> host \<Rightarrow> string option \<Rightarrow> string option" where
  "parseWebModuleSpecifier sh h spec =
     (case spec of
        None \<Rightarrow> None
      | Some sp \<Rightarrow>
          (if sp = [] then None
           else if regexTest sh BARE_SPECIFIER_REGEX sp then Some sp
           else
             (let cleanedSpecifier = removeSpecifierQueryString sp
              in case indexOf WEB_MODULES_TOKEN cleanedSpecifier of
                   None \<Rightarrow> None
                 | Some webModulesIndex \<Rightarrow>
                     (let resolvedSpecifier =
                            drop (webModulesIndex + length WEB_MODULES_TOKEN) cleanedSpecifier;
                          resolvedSpecifierWithoutExtension = stripJsExtension resolvedSpecifier
                      in if validForNewPackages h resolvedSpecifierWithoutExtension
                         then Some resolvedSpecifierWithoutExtension
                         else Some resolvedSpecifier))))"

text \<open>\<^verbatim>\<open>str.split(',')\<close> and \<^verbatim>\<open>str.trim()\<close>.\<close>

fun split_on :: "char \<Rightarrow> string \<Rightarrow> string list" where
  "split_on sep [] = [[]]"
| "split_on sep (c # cs) =
     (if c = sep then [] # split_on sep cs
      else (case split_on sep cs of
              [] \<Rightarrow> [[c]]
            | w # ws \<Rightarrow> (c # w) # ws))"

definition trim :: "string \<Rightarrow> string" where
  "trim str = rev (dropWhile is_js_space (rev (dropWhile is_js_space str)))"

definition parseImportStatement ::
  "scan_host \<Rightarrow> host \<Rightarrow> string \<Rightarrow> ImportSpecifier \<Rightarrow> InstallTarget option" where
  "parseImportStatement sh h code imp =
     (case parseWebModuleSpecifier sh h (getWebModuleSpecifierFromCode code imp) of
        None \<Rightarrow> None
      | Some webModuleSpecifier \<Rightarrow>
          (if webModuleSpecifier = [] then None
           else
             (let importStatement = substring code (imp_ss imp) (imp_se imp)
              in if regexTest sh IMPORT_TYPE_REGEX importStatement then None
                 else
                   (let isDynamicImport = (imp_d imp > - 1);
                        hasDefaultImport =
                          (\<not> isDynamicImport \<and> regexTest sh DEFAULT_IMPORT_REGEX importStatement);
                        hasNamespaceImport =
                          (\<not> isDynamicImport \<and> CHR ''*'' \<in> set importStatement);
                        namedImports =
                          filter (\<lambda>name. name \<noteq> [])
                            (map (\<lambda>name. trim (regexRemove sh STRIP_AS name))
                               (split_on CHR '',''
                                  (case regexGroup sh HAS_NAMED_IMPORTS_REGEX 1 importStatement of
                                     Some g \<Rightarrow> g
                                   | None \<Rightarrow> [])))
                    in Some \<lparr>specifier = webModuleSpecifier,
                             all = (isDynamicImport
                                    \<or> (\<not> hasDefaultImport \<and> \<not> hasNamespaceImport
                                        \<and> namedImports = [])),
                             default = hasDefaultImport,
                             namespace = hasNamespaceImport,
                             named = namedImports\<rparr>))))"

text \<open>\<^verbatim>\<open>xs.join('\n')\<close>\<close>

fun join_lines :: "string list \<Rightarrow> string" where
  "join_lines [] = []"
| "join_lines [x] = x"
| "join_lines (x # y # ys) = x @ [CHR 0x0A] @ join_lines (y # ys)"

definition cleanCodeForParsing :: "scan_host \<Rightarrow> string \<Rightarrow> string" where
  "cleanCodeForParsing sh code =
     (let stripped = stripComments sh code
      in join_lines (regexExecAll sh ESM_IMPORT_REGEX 0 stripped
                     @ regexExecAll sh ESM_DYNAMIC_IMPORT_REGEX 0 stripped))"

text \<open>What the scanner throws: the lexer has failed on the file and on its cleaned text.\<close>

datatype scan_error = ParseFailure string

definition parseCodeForInstallTargets ::
  "scan_host \<Rightarrow> host \<Rightarrow> SnowpackSourceFile \<Rightarrow> scan_error + InstallTarget list" where
  "parseCodeForInstallTargets sh h file =
     (case (case (if baseExt file = ''.jsx'' \<or> baseExt file = ''.tsx'' then None
                  else parse sh (contents file)) of
              Some found \<Rightarrow> Some (contents file, found)
            | None \<Rightarrow>
                (let cleaned = cleanCodeForParsing sh (contents file)
                 in case parse sh cleaned of
                      Some found \<Rightarrow> Some (cleaned, found)
                    | None \<Rightarrow> None)) of
        None \<Rightarrow> Inl (ParseFailure (locOnDisk file))
      | Some (code, found) \<Rightarrow>
          Inr (filter (\<lambda>imp. \<not> regexTest sh MACRO_REGEX (specifier imp))
                 (List.map_filter (\<lambda>imp. parseImportStatement sh h code imp) found)))"

text \<open>
  \<^verbatim>\<open>xs.sort(compare)\<close>: the sort is stable, so with a comparator that is a total preorder
  the result is that of inserting each element before the first one it is smaller than.
\<close>

fun insert_by :: "('a \<Rightarrow> 'a \<Rightarrow> int) \<Rightarrow> 'a \<Rightarrow> 'a list \<Rightarrow> 'a list" where
  "insert_by compare x [] = [x]"
| "insert_by compare x (y # ys) =
     (if compare x y \<le> 0 then x # y # ys else y # insert_by compare x ys)"

definition sort_by :: "('a \<Rightarrow> 'a \<Rightarrow> int) \<Rightarrow> 'a list \<Rightarrow> 'a list" where
  "sort_by compare xs = foldr (insert_by compare) xs []"

text \<open>The files parsed in order; the first failure is thrown.\<close>

fun parseAll ::
  "scan_host \<Rightarrow> host \<Rightarrow> SnowpackSourceFile list \<Rightarrow> scan_error + InstallTarget list list" where
  "parseAll sh h [] = Inr []"
| "parseAll sh h (file # files) =
     (case parseCodeForInstallTargets sh h file of
        Inl err \<Rightarrow> Inl err
      | Inr targets \<Rightarrow>
          (case parseAll sh h files of
             Inl err \<Rightarrow> Inl err
           | Inr rest \<Rightarrow> Inr (targets # rest)))"

definition scanImportsFromFiles ::
  "scan_host \<Rightarrow> host \<Rightarrow> SnowpackSourceFile list \<Rightarrow> SnowpackConfig
     \<Rightarrow> scan_error + InstallTarget list" where
  "scanImportsFromFiles sh h loadedFiles config =
     (case parseAll sh h loadedFiles of
        Inl err \<Rightarrow> Inl err
      | Inr found \<Rightarrow>
          Inr (sort_by (\<lambda>impA impB. localeCompare sh (specifier impA) (specifier impB))
                 (filter (\<lambda>target.
                            case findMatchingAliasEntry h config (specifier target) of
                              None \<Rightarrow> True
                            | Some aliasEntry \<Rightarrow> alias_type aliasEntry = Package)
                         (concat found))))"

text \<open>
  \<^verbatim>\<open>scanDepList\<close> calls itself on what a glob pattern expands to, and a name that a
  pattern expands to may be a pattern again, so the calls need not end. \<open>n\<close> bounds their
  depth, and \<open>None\<close> says that the bound was reached. The result is the trace of the
  directory listings and the targets.
\<close>

fun scanDepList ::
  "scan_host \<Rightarrow> nat \<Rightarrow> string list \<Rightarrow> (event list \<times> InstallTarget list) option" where
  "scanDepList sh n [] = Some ([], [])"
| "scanDepList sh n (whitelistItem # depList) =
     (case (if \<not> hasMagic sh whitelistItem
            then Some ([], [createInstallTarget whitelistItem True])
            else (case n of
                    0 \<Rightarrow> None
                  | Suc k \<Rightarrow>
                      (case scanDepList sh k
                              (globSync sh whitelistItem [] (pathResolve sh ''node_modules'')) of
                         None \<Rightarrow> None
                       | Some (evs, targets) \<Rightarrow>
                           Some (GlobSync (pathResolve sh ''node_modules'') # evs, targets)))) of
        None \<Rightarrow> None
      | Some (evs, item) \<Rightarrow>
          (case scanDepList sh n depList of
             None \<Rightarrow> None
           | Some (evs', flat) \<Rightarrow> Some (evs @ evs', item @ flat)))"

text \<open>One file of \<^verbatim>\<open>scanImports\<close>: what is loaded from it, if anything.\<close>

definition loadFile :: "scan_host \<Rightarrow> string \<Rightarrow> SnowpackSourceFile option" where
  "loadFile sh filePath =
     (let (base, expanded) = getExt sh filePath
      in if prefix ''.'' filePath then None
         else if base = [] then None
         else if base \<in> set [''.js'', ''.jsx'', ''.mjs'', ''.ts'', ''.tsx'']
              then Some \<lparr>baseExt = base, expandedExt = expanded, locOnDisk = filePath,
                         contents = readFile sh filePath\<rparr>
         else if base \<in> set [''.html'', ''.vue'', ''.svelte'']
              then Some \<lparr>baseExt = base, expandedExt = expanded, locOnDisk = filePath,
                         contents = join_lines (filter (\<lambda>code. trim code \<noteq> [])
                                      (regexExecAll sh HTML_JS_REGEX 2 (readFile sh filePath)))\<rparr>
         else None)"

definition scanImports ::
  "scan_host \<Rightarrow> host \<Rightarrow> SnowpackConfig \<Rightarrow> event list \<times> (scan_error + InstallTarget list)" where
  "scanImports sh h config =
     (let dirs = map (\<lambda>(fromDisk, toUrl). pathResolve sh fromDisk) (mount config);
          includeFileSets =
            map (\<lambda>dirDisk. globSync sh ''**/*'' (exclude config @ [''**/web_modules/**/*'']) dirDisk)
                dirs;
          includeFiles = js_Set (concat includeFileSets);
          evs = map GlobSync dirs
      in if includeFiles = [] then (evs, Inr [])
         else (evs @ map ReadFile (filter (\<lambda>filePath. loadFile sh filePath \<noteq> None) includeFiles),
               scanImportsFromFiles sh h (List.map_filter (loadFile sh) includeFiles) config))"

definition getInstallTargets ::
  "scan_host \<Rightarrow> host \<Rightarrow> nat \<Rightarrow> SnowpackConfig
     \<Rightarrow> (event list \<times> (scan_error + InstallTarget list)) option" where
  "getInstallTargets sh h n config =
     (case (case knownEntrypoints config of
              None \<Rightarrow> Some ([], [])
            | Some entrypoints \<Rightarrow> scanDepList sh n entrypoints) of
        None \<Rightarrow> None
      | Some (knownEvs, known) \<Rightarrow>
          (case (case webDependencies config of
                   None \<Rightarrow> Some ([], [])
                 | Some deps \<Rightarrow> scanDepList sh n (map fst deps)) of
             None \<Rightarrow> None
           | Some (webEvs, web) \<Rightarrow>
               (let (evs, scanned) = scanImports sh h config
                in case scanned of
                     Inl err \<Rightarrow> Some (knownEvs @ webEvs @ evs, Inl err)
                   | Inr targets \<Rightarrow>
                       Some (knownEvs @ webEvs @ evs, Inr (known @ web @ targets)))))"

section \<open>The install command\<close>

text \<open>How the install command ends.\<close>

datatype command_outcome = Done | ExitFailure | ScanThrown scan_error | InstallThrown error

definition command ::
  "scan_host \<Rightarrow> host \<Rightarrow> nat \<Rightarrow> string \<Rightarrow> SnowpackConfig \<Rightarrow> ImportMap option
     \<Rightarrow> (event list \<times> command_outcome) option" where
  "command sh h n cwd config lockfile =
     (case getInstallTargets sh h n config of
        None \<Rightarrow> None
      | Some (scanEvs, Inl err) \<Rightarrow> Some (scanEvs, ScanThrown err)
      | Some (scanEvs, Inr installTargets) \<Rightarrow>
          (if installTargets = [] then Some (scanEvs @ [LogError NothingToInstall], Done)
           else
             (let (runEvs, r) = run h config lockfile installTargets
              in case r of
                   Exited \<Rightarrow> Some (scanEvs @ runEvs, ExitFailure)
                 | Thrown err \<Rightarrow> Some (scanEvs @ runEvs, InstallThrown err)
                 | Returned finalResult \<Rightarrow>
                     (let lockEvs =
                            (case newLockfile finalResult of
                               Some lock \<Rightarrow> [WriteLockfile (pathJoin h [cwd, LOCK_FILE h]) lock]
                             | None \<Rightarrow> [])
                      in if \<not> success finalResult \<or> hasError finalResult
                         then Some (scanEvs @ runEvs @ lockEvs @ [ProcessExit], ExitFailure)
                         else Some (scanEvs @ runEvs @ lockEvs, Done)))))"

section \<open>Reading traces and import maps\<close>

text \<open>The entries handed to the bundler in a trace.\<close>

fun rollupInputs :: "event list \<Rightarrow> (string \<times> json) list" where
  "rollupInputs [] = []"
| "rollupInputs (Rollup entries # evs) = entries @ rollupInputs evs"
| "rollupInputs (e # evs) = rollupInputs evs"

text \<open>The kind under which the resolver finds a specifier, if it finds it.\<close>

definition resolvedType :: "host \<Rightarrow> string \<Rightarrow> dep_type option" where
  "resolvedType h s =
     (case resolveWebDependency h s of Inl err \<Rightarrow> None | Inr d \<Rightarrow> Some (type d))"

text \<open>
  The specifiers of a list that get a key of their own in the import map: those for
  which the lockfile has a value, and those the resolver finds as a script or an asset;
  but never the name \<^verbatim>\<open>__proto__\<close>.
\<close>

definition servedSpecifiers :: "host \<Rightarrow> ImportMap option \<Rightarrow> string list \<Rightarrow> string set" where
  "servedSpecifiers h lockfile specs =
     set (filter (\<lambda>s. s \<noteq> ''__proto__''
                         \<and> (lockfileEntry lockfile s \<noteq> None
                              \<or> resolvedType h s = Some JS \<or> resolvedType h s = Some ASSET))
                 specs)"

text \<open>
  The alias names added for the specifiers of a list for which the lockfile has no value
  and which the resolver finds as scripts; but never the name \<^verbatim>\<open>__proto__\<close>.
\<close>

definition aliasKeysOf :: "host \<Rightarrow> SnowpackConfig \<Rightarrow> ImportMap option \<Rightarrow> string list \<Rightarrow> string set" where
  "aliasKeysOf h config lockfile specs =
     set (concat (map (\<lambda>s. if lockfileEntry lockfile s = None \<and> resolvedType h s = Some JS
                            then filter (\<lambda>key. key \<noteq> ''__proto__'')
                                   (map fst (filter (\<lambda>(key, val). val = s) (installAlias config)))
                            else [])
                      specs))"

text \<open>The specifiers of the targets that no externalized package covers.\<close>

definition survivingSpecifiers :: "SnowpackConfig \<Rightarrow> InstallTarget list \<Rightarrow> string list" where
  "survivingSpecifiers config installTargets =
     map specifier (filter (\<lambda>dep. \<not> isExternal config (specifier dep)) installTargets)"

text \<open>Removals of a directory in a trace.\<close>

fun isRimraf :: "event \<Rightarrow> bool" where
  "isRimraf (Rimraf d) = True"
| "isRimraf e = False"

section \<open>Notions of the specification\<close>

text \<open>The first value of a list that is selected (truthy), if any.\<close>

definition first_selected :: "json option list \<Rightarrow> json option" where
  "first_selected vs = (case filter truthy vs of [] \<Rightarrow> None | v # _ \<Rightarrow> v)"

text \<open>An object or an array: what \<^verbatim>\<open>typeof\<close> calls an object, null apart.\<close>

definition is_object :: "json option \<Rightarrow> bool" where
  "is_object v = (truthy v \<and> typeof v = TObject)"

text \<open>
  The selection of the entry point in the words of the specification: the priority
  \<^verbatim>\<open>browser:module\<close>, \<^verbatim>\<open>module\<close>, \<^verbatim>\<open>main:esnext\<close>, \<^verbatim>\<open>browser\<close>, \<^verbatim>\<open>main\<close>, where a
  \<^verbatim>\<open>browser\<close> object is probed with the keys specifier, \<^verbatim>\<open>"./index.js"\<close>, \<^verbatim>\<open>"./index"\<close>,
  \<^verbatim>\<open>"./"\<close>, \<^verbatim>\<open>"."\<close> in that order (a probe is a property read, so it also finds what the
  object inherits). \<open>None\<close>: nothing is selected.
\<close>

definition spec_browser_entry :: "host \<Rightarrow> json \<Rightarrow> string \<Rightarrow> json option" where
  "spec_browser_entry h m dep =
     (case get m ''browser'' of
        Some b \<Rightarrow>
          (if is_object (Some b)
           then first_selected (map (lookup h b) [dep, ''./index.js'', ''./index'', ''./'', ''.''])
           else Some b)
      | None \<Rightarrow> None)"

definition spec_select_entry :: "host \<Rightarrow> json \<Rightarrow> string \<Rightarrow> json option" where
  "spec_select_entry h m dep =
     first_selected [get m ''browser:module'', get m ''module'', get m ''main:esnext'',
                     spec_browser_entry h m dep, get m ''main'']"

text \<open>
  The one manifest on which the selection fails before it selects: nothing of
  \<^verbatim>\<open>browser:module\<close>, \<^verbatim>\<open>module\<close>, \<^verbatim>\<open>main:esnext\<close> is selected and \<^verbatim>\<open>browser\<close> is null.
\<close>

definition browser_is_null :: "json \<Rightarrow> bool" where
  "browser_is_null m =
     (\<not> truthy (get m ''browser:module'') \<and> \<not> truthy (get m ''module'')
      \<and> \<not> truthy (get m ''main:esnext'') \<and> get m ''browser'' = Some JNull)"

text \<open>
  The value of an export-map entry in the words of the specification: a string, or
  the first of the conditions \<^verbatim>\<open>browser\<close>, \<^verbatim>\<open>import\<close>, \<^verbatim>\<open>default\<close>, \<^verbatim>\<open>require\<close> of a
  conditional object.
\<close>

definition spec_export_value :: "json \<Rightarrow> json option" where
  "spec_export_value entry =
     (case entry of
        JStr s \<Rightarrow> Some (JStr s)
      | JObj kvs \<Rightarrow> first_selected (map (map_of kvs) [''browser'', ''import'', ''default'', ''require''])
      | _ \<Rightarrow> None)"

text \<open>
  The argument of a dynamic import as a string literal: a text that begins with a quote
  character and ends with another one.
\<close>

definition quoted :: "string \<Rightarrow> bool" where
  "quoted str = (2 \<le> length str \<and> is_quote (hd str) \<and> is_quote (last str))"

text \<open>What \<open>findEntrypoint\<close> makes of the value it has selected.\<close>

definition entry_of :: "string \<Rightarrow> json option \<Rightarrow> error + (string \<times> bool)" where
  "entry_of dep sel =
     (case sel of
        None \<Rightarrow> Inr (''index.js'', True)
      | Some (JStr s) \<Rightarrow> Inr (s, False)
      | Some v \<Rightarrow> Inl (UnexpectedEntrypoint dep (Some v)))"

section \<open>An example project\<close>

text \<open>
  A project directory \<^verbatim>\<open>/app\<close> with a few packages installed, for evaluating the
  installer on concrete inputs. The host functions are given on the paths and names
  that occur in it.
\<close>

definition example_manifests :: "string \<Rightarrow> string option \<times> json option" where
  "example_manifests dep =
     (if dep = ''react'' then
        (Some ''/app/node_modules/react/package.json'',
         Some (JObj [(''name'', JStr ''react''), (''main'', JStr ''index.js'')]))
      else if dep = ''preact'' then
        (Some ''/app/node_modules/preact/package.json'',
         Some (JObj [(''name'', JStr ''preact''), (''module'', JStr ''dist/preact.module.js''),
                     (''main'', JStr ''dist/preact.js'')]))
      else if dep = ''csstype'' then
        (Some ''/app/node_modules/csstype/package.json'',
         Some (JObj [(''name'', JStr ''csstype''), (''types'', JStr ''index.d.ts'')]))
      else if dep = ''pkg'' then
        (Some ''/app/node_modules/pkg/package.json'',
         Some (JObj [(''name'', JStr ''pkg''),
                     (''exports'', JObj [(''./feature'', JObj [(''import'', JStr ''./esm/feature.js''),
                                                          (''require'', JStr ''./cjs/feature.js'')]),
                                       (''./styles.css'', JStr ''./dist/styles.css'')])]))
      else if dep = ''pkg/legacy'' then
        (Some ''/app/node_modules/pkg/legacy/package.json'',
         Some (JObj [(''module'', JStr ''index.mjs'')]))
      else if dep = ''widget'' then
        (Some ''/app/node_modules/widget/package.json'',
         Some (JObj [(''name'', JStr ''widget''),
                     (''browser'', JObj [(''./index.js'', JStr ''./browser.js'')]),
                     (''main'', JStr ''index.js'')]))
      else if dep = ''constructor'' then
        (Some ''/app/node_modules/constructor/package.json'',
         Some (JObj [(''name'', JStr ''constructor''),
                     (''browser'', JObj [(''./lib/node.js'', JStr ''./lib/browser.js'')]),
                     (''main'', JStr ''index.js'')]))
      else if dep = ''nobrowser'' then
        (Some ''/app/node_modules/nobrowser/package.json'',
         Some (JObj [(''name'', JStr ''nobrowser''), (''browser'', JNull),
                     (''main'', JStr ''index.js'')]))
      else (None, None))"

definition example_files :: "string list" where
  "example_files =
     [''/app/node_modules/react/index.js'',
      ''/app/node_modules/preact/dist/preact.module.js'',
      ''/app/node_modules/preact/dist/preact.js'',
      ''/app/node_modules/pkg/esm/feature.js'',
      ''/app/node_modules/pkg/cjs/feature.js'',
      ''/app/node_modules/pkg/dist/styles.css'',
      ''/app/node_modules/pkg/legacy/index.mjs'',
      ''/app/node_modules/widget/index.js'',
      ''/app/node_modules/widget/browser.js'',
      ''/app/node_modules/constructor/index.js'',
      ''/app/node_modules/nobrowser/index.js'']"

definition example_dirname :: "string \<Rightarrow> string" where
  "example_dirname p = rev (tl (dropWhile (\<lambda>c. c \<noteq> CHR ''/'') (rev p)))"

definition example_pathJoin :: "string list \<Rightarrow> string" where
  "example_pathJoin parts =
     (case parts of
        [l, up, v] \<Rightarrow> example_dirname l @ ''/'' @ (if prefix ''./'' v then drop 2 v else v)
      | [d, f] \<Rightarrow> d @ ''/'' @ f
      | _ \<Rightarrow> concat parts)"

definition example_extname :: "string \<Rightarrow> string" where
  "example_extname p =
     (let base = rev (takeWhile (\<lambda>c. c \<noteq> CHR ''/'') (rev p))
      in if CHR ''.'' \<in> set base
         then CHR ''.'' # rev (takeWhile (\<lambda>c. c \<noteq> CHR ''.'') (rev base)) else [])"

definition example_findMatchingAliasEntry :: "SnowpackConfig \<Rightarrow> string \<Rightarrow> AliasEntry option" where
  "example_findMatchingAliasEntry config spec =
     (case map_of (installAlias config) spec of
        Some target \<Rightarrow> Some \<lparr>alias_from = spec, alias_to = target, alias_type = Package\<rparr>
      | None \<Rightarrow> None)"

definition example_host :: host where
  "example_host =
     \<lparr>extname = example_extname,
      validForNewPackages = (\<lambda>s. CHR ''/'' \<notin> set s),
      parsePackageImportSpecifier =
        (\<lambda>s. (takeWhile (\<lambda>c. c \<noteq> CHR ''/'') s, drop 1 (dropWhile (\<lambda>c. c \<noteq> CHR ''/'') s))),
      resolveDependencyManifest = example_manifests,
      requireResolveFrom =
        (\<lambda>s. if s = ''pkg/styles.css'' then Some ''/app/node_modules/pkg/dist/styles.css''
             else None),
      requireResolve = (\<lambda>s. if s \<in> set example_files then Some s else None),
      pathJoin = example_pathJoin,
      sanitizePackageName = (\<lambda>s. s),
      findMatchingAliasEntry = example_findMatchingAliasEntry,
      nodeModulesInstalled = True,
      pnp = False,
      rollup = (\<lambda>opts. ([], None)),
      resolveTargetsFromRemoteCDN = (\<lambda>lockfile config. Inr lockfile),
      IMPORT_MAP_FILE = ''import-map.json'',
      LOCK_FILE = ''snowpack.lock.json'',
      arrayPrototypeKeys =
        [''constructor'', ''concat'', ''copyWithin'', ''fill'', ''find'', ''findIndex'',
         ''lastIndexOf'', ''pop'', ''push'', ''reverse'', ''shift'', ''unshift'', ''slice'',
         ''sort'', ''splice'', ''includes'', ''indexOf'', ''join'', ''keys'', ''entries'',
         ''values'', ''forEach'', ''filter'', ''flat'', ''flatMap'', ''map'', ''every'', ''some'',
         ''reduce'', ''reduceRight'', ''toLocaleString'', ''toString'']\<rparr>"

definition example_config :: SnowpackConfig where
  "example_config =
     \<lparr>webDependencies = None, knownEntrypoints = None, installAlias = [],
      mount = [(''src'', ''/_dist_'')], exclude = [], dest = ''/app/web_modules'',
      externalPackage = []\<rparr>"

text \<open>Two source files of the project, both importing from \<^verbatim>\<open>react\<close>, and the host of the scanner.\<close>

definition example_fileA :: string where
  "example_fileA = ''import React from '' @ [CHR 0x27] @ ''react'' @ [CHR 0x27] @ '';''"

definition example_fileB :: string where
  "example_fileB = ''import {useState} from '' @ [CHR 0x27] @ ''react'' @ [CHR 0x27] @ '';''"

definition example_scan_host :: scan_host where
  "example_scan_host =
     \<lparr>parse =
        (\<lambda>code. if code = example_fileA
                 then Some [\<lparr>imp_s = 19, imp_e = 24, imp_ss = 0, imp_se = 25, imp_d = - 1\<rparr>]
                 else if code = example_fileB
                 then Some [\<lparr>imp_s = 24, imp_e = 29, imp_ss = 0, imp_se = 30, imp_d = - 1\<rparr>]
                 else Some []),
      stripComments = (\<lambda>code. code),
      regexTest =
        (\<lambda>r str. (r = BARE_SPECIFIER_REGEX \<and> str = ''react'')
                 \<or> (r = DEFAULT_IMPORT_REGEX \<and> str = take 25 example_fileA)),
      regexGroup =
        (\<lambda>r n str. if r = HAS_NAMED_IMPORTS_REGEX \<and> n = 1 \<and> str = take 30 example_fileB
                    then Some ''useState'' else None),
      regexExecAll = (\<lambda>r n str. []),
      regexRemove = (\<lambda>r str. str),
      localeCompare = (\<lambda>a b. if a < b then - 1 else if a = b then 0 else 1),
      hasMagic = (\<lambda>str. CHR ''*'' \<in> set str),
      globSync =
        (\<lambda>pattern ignore dir. if pattern = ''**/*'' \<and> dir = ''/app/src''
                               then [''/app/src/a.js'', ''/app/src/b.js'']
                               else if pattern = ''preact/dist/*.js'' \<and> dir = ''/app/node_modules''
                               then [''preact/dist/preact.js'', ''preact/dist/preact.module.js'']
                               else []),
      getExt = (\<lambda>filePath. (''.js'', ''.js'')),
      readFile =
        (\<lambda>filePath. if filePath = ''/app/src/a.js'' then example_fileA
                     else if filePath = ''/app/src/b.js'' then example_fileB else []),
      pathResolve = (\<lambda>p. ''/app/'' @ p)\<rparr>"

definition example_loadedFiles :: "SnowpackSourceFile list" where
  "example_loadedFiles =
     [\<lparr>baseExt = ''.js'', expandedExt = ''.js'', locOnDisk = ''/app/src/a.js'',
       contents = example_fileA\<rparr>,
      \<lparr>baseExt = ''.js'', expandedExt = ''.js'', locOnDisk = ''/app/src/b.js'',
       contents = example_fileB\<rparr>]"

section \<open>Properties\<close>

subsection \<open>The loop of install\<close>

lemmas ex_defs = example_host_def example_config_def example_manifests_def example_files_def
  example_dirname_def example_pathJoin_def example_extname_def example_findMatchingAliasEntry_def
  createInstallTarget_def
lemmas res_defs = resolveWebDependency_def isDirectFile_def resolveDirectFile_def resolveExportMap_def
  exportMapValue_def or_js_def resolveManifestOrFile_def resolveManifestEntry_def checkReactWorkaround_def
  findEntrypoint_def probeEntrypointObject_def lookup_def inherited_def object_prototype_keys_def
lemmas inst_defs = install_def allInstallSpecifiers_def js_Set_def isExternal_def isImportOfPackage_def
  resolveAlias_def install_step_def getWebDependencyName_def ends_with_ci_def lower_def lockfileEntry_def
  expandAliases_def initial_vars_def bundleAndEmit_def inputOptions_def assign_def
  object_prototype_keys_def

lemma keys_assign:
  "fst ` set (assign k v obj) =
     (if k = ''__proto__'' then fst ` set obj else insert k (fst ` set obj))"
  by (simp add: assign_def dom_update)

lemma map_of_assign:
  "map_of (assign k v obj) k' =
     (if k = k' \<and> k \<noteq> ''__proto__'' then Some v else map_of obj k')"
  by (simp add: assign_def update_conv')

lemma servedSpecifiers_iff:
  "servedSpecifiers h lockfile specs =
     {s \<in> set specs. s \<noteq> ''__proto__''
                     \<and> (lockfileEntry lockfile s \<noteq> None
                          \<or> (\<exists>d. resolveWebDependency h s = Inr d \<and> type d \<noteq> IGNORE))}"
proof -
  have "(resolvedType h s = Some JS \<or> resolvedType h s = Some ASSET)
          = (\<exists>d. resolveWebDependency h s = Inr d \<and> type d \<noteq> IGNORE)" for s
  proof (cases "resolveWebDependency h s")
    case (Inl e)
    then show ?thesis by (simp add: resolvedType_def)
  next
    case (Inr d)
    then show ?thesis by (cases "type d") (simp_all add: resolvedType_def)
  qed
  then show ?thesis by (auto simp: servedSpecifiers_def)
qed

lemma aliasKeysOf_iff:
  "aliasKeysOf h config lockfile specs =
     {k. k \<noteq> ''__proto__''
         \<and> (\<exists>s \<in> set specs. (k, s) \<in> set (installAlias config) \<and> lockfileEntry lockfile s = None
                          \<and> (\<exists>d. resolveWebDependency h s = Inr d \<and> type d = JS))}"
proof -
  have "(resolvedType h s = Some JS) = (\<exists>d. resolveWebDependency h s = Inr d \<and> type d = JS)" for s
    by (cases "resolveWebDependency h s") (simp_all add: resolvedType_def)
  then show ?thesis by (force simp: aliasKeysOf_def)
qed

lemma set_fold_js_Set:
  "set (fold (\<lambda>x acc. if x \<in> set acc then acc else acc @ [x]) xs acc) = set xs \<union> set acc"
  by (induction xs arbitrary: acc) auto

lemma set_js_Set: "set (js_Set xs) = set xs"
  by (simp add: js_Set_def set_fold_js_Set)

lemma set_allInstallSpecifiers:
  "set (allInstallSpecifiers h config installTargets) =
     set (map (resolveAlias h config) (survivingSpecifiers config installTargets))"
  by (simp add: allInstallSpecifiers_def survivingSpecifiers_def set_js_Set)

lemma keys_expandAliases_fold:
  "fst ` set (fold (\<lambda>(key, val) acc. if val = s then assign key v acc else acc) al im)
     = fst ` set im \<union> {k. k \<noteq> ''__proto__'' \<and> (k, s) \<in> set al}"
proof (induction al arbitrary: im)
  case Nil
  show ?case by simp
next
  case (Cons a al)
  obtain k v' where a: "a = (k, v')" by (cases a)
  show ?case
    by (auto simp: a Cons.IH keys_assign)
qed

lemma keys_expandAliases:
  "fst ` set (expandAliases config s n im)
     = fst ` set im \<union> {k. k \<noteq> ''__proto__'' \<and> (k, s) \<in> set (installAlias config)}"
  by (simp add: expandAliases_def keys_expandAliases_fold)

lemma install_step_keys:
  assumes "install_step h config lockfile s st = Inr st'"
  shows "fst ` set (importMapImports st') =
           fst ` set (importMapImports st) \<union> servedSpecifiers h lockfile [s]
             \<union> aliasKeysOf h config lockfile [s]"
proof (cases "lockfileEntry lockfile s")
  case (Some url)
  with assms obtain v where "importMapImports st' = assign s v (importMapImports st)"
    by (auto simp: install_step_def Let_def)
  then have "fst ` set (importMapImports st') =
      (if s = ''__proto__'' then fst ` set (importMapImports st)
       else insert s (fst ` set (importMapImports st)))"
    by (simp add: keys_assign)
  moreover from Some have "servedSpecifiers h lockfile [s] = (if s = ''__proto__'' then {} else {s})"
    and "aliasKeysOf h config lockfile [s] = {}"
    by (auto simp: servedSpecifiers_iff aliasKeysOf_iff)
  ultimately show ?thesis by auto
next
  case None
  show ?thesis
  proof (cases "resolveWebDependency h s")
    case (Inl e)
    with None assms show ?thesis by (simp add: install_step_def Let_def)
  next
    case (Inr d)
    show ?thesis
    proof (cases "type d")
      case JS
      with None Inr assms obtain v n where
        "importMapImports st' = expandAliases config s n (assign s v (importMapImports st))"
        by (auto simp: install_step_def Let_def)
      then have "fst ` set (importMapImports st') =
          (if s = ''__proto__'' then fst ` set (importMapImports st)
           else insert s (fst ` set (importMapImports st)))
          \<union> {k. k \<noteq> ''__proto__'' \<and> (k, s) \<in> set (installAlias config)}"
        by (simp add: keys_assign keys_expandAliases)
      moreover from None Inr JS have
        "servedSpecifiers h lockfile [s] = (if s = ''__proto__'' then {} else {s})"
        and "aliasKeysOf h config lockfile [s]
               = {k. k \<noteq> ''__proto__'' \<and> (k, s) \<in> set (installAlias config)}"
        by (auto simp: servedSpecifiers_iff aliasKeysOf_iff)
      ultimately show ?thesis by auto
    next
      case ASSET
      with None Inr assms obtain v where
        "importMapImports st' = assign s v (importMapImports st)"
        by (auto simp: install_step_def Let_def)
      then have "fst ` set (importMapImports st') =
          (if s = ''__proto__'' then fst ` set (importMapImports st)
           else insert s (fst ` set (importMapImports st)))"
        by (simp add: keys_assign)
      moreover from None Inr ASSET have
        "servedSpecifiers h lockfile [s] = (if s = ''__proto__'' then {} else {s})"
        and "aliasKeysOf h config lockfile [s] = {}"
        by (auto simp: servedSpecifiers_iff aliasKeysOf_iff)
      ultimately show ?thesis by auto
    next
      case IGNORE
      with None Inr assms have "st' = st"
        by (auto simp: install_step_def Let_def)
      moreover from None Inr IGNORE have "servedSpecifiers h lockfile [s] = {}"
        and "aliasKeysOf h config lockfile [s] = {}"
        by (auto simp: servedSpecifiers_iff aliasKeysOf_iff)
      ultimately show ?thesis by auto
    qed
  qed
qed

lemma servedSpecifiers_Cons:
  "servedSpecifiers h lockfile (s # specs) = servedSpecifiers h lockfile [s] \<union> servedSpecifiers h lockfile specs"
  by (auto simp: servedSpecifiers_iff)

lemma aliasKeysOf_Cons:
  "aliasKeysOf h config lockfile (s # specs) = aliasKeysOf h config lockfile [s] \<union> aliasKeysOf h config lockfile specs"
  by (auto simp: aliasKeysOf_iff)

lemma install_loop_keys:
  "install_loop h config lockfile specs st0 = Inr st \<Longrightarrow>
     fst ` set (importMapImports st) =
       fst ` set (importMapImports st0) \<union> servedSpecifiers h lockfile specs
         \<union> aliasKeysOf h config lockfile specs"
proof (induction specs arbitrary: st0)
  case Nil
  then show ?case by (simp add: servedSpecifiers_iff aliasKeysOf_iff)
next
  case (Cons s specs)
  from Cons.prems obtain st1 where s1: "install_step h config lockfile s st0 = Inr st1"
    and l1: "install_loop h config lockfile specs st1 = Inr st"
    by (auto split: sum.splits)
  show ?case
    unfolding Cons.IH[OF l1] install_step_keys[OF s1]
      servedSpecifiers_Cons[of h lockfile s specs] aliasKeysOf_Cons[of h config lockfile s specs]
    by blast
qed

lemma rollupInputs_append: "rollupInputs (xs @ ys) = rollupInputs xs @ rollupInputs ys"
  by (induction xs rule: rollupInputs.induct) auto

lemma rollupInputs_onwarn: "rollupInputs (concat (map onwarn ws)) = []"
proof (induction ws)
  case Nil
  show ?case by simp
next
  case (Cons w ws)
  then show ?case by (cases w) (simp_all add: rollupInputs_append)
qed

lemma rollupInputs_CopyFile: "rollupInputs (map (\<lambda>(a, b). CopyFile (f a b) (g a b)) xs) = []"
  by (induction xs) auto

lemma bundleAndEmit_Installed:
  assumes "bundleAndEmit h config st = (evs, Inr (Installed im))"
  shows "im = importMapImports st \<and> rollupInputs evs = installEntrypoints st"
proof (cases "installEntrypoints st = []")
  case True
  with assms show ?thesis
    using rollupInputs_CopyFile[of "\<lambda>a b. b" "\<lambda>a b. dest config @ ''/'' @ sanitizePackageName h a"]
    by (auto simp: bundleAndEmit_def)
next
  case False
  obtain ws err where r: "rollup h (inputOptions config st) = (ws, err)"
    by (cases "rollup h (inputOptions config st)")
  show ?thesis
  proof (cases err)
    case None
    with assms False r show ?thesis
      using rollupInputs_CopyFile[of "\<lambda>a b. b" "\<lambda>a b. dest config @ ''/'' @ sanitizePackageName h a"]
      by (auto simp: bundleAndEmit_def rollupInputs_append rollupInputs_onwarn)
  next
    case (Some e)
    with assms False r show ?thesis
      by (auto simp: bundleAndEmit_def split: if_splits)
  qed
qed

lemma install_Installed:
  assumes "install h installTargets lockfile config = (evs, Inr (Installed im))"
  shows "\<exists>st. install_loop h config lockfile (allInstallSpecifiers h config installTargets)
                 initial_vars = Inr st
              \<and> im = importMapImports st \<and> rollupInputs evs = installEntrypoints st"
proof -
  from assms obtain st where
    loop: "install_loop h config lockfile (allInstallSpecifiers h config installTargets)
             initial_vars = Inr st"
    by (auto simp: install_def split: if_splits sum.splits)
  show ?thesis
  proof (cases "installEntrypoints st = [] \<and> assetEntrypoints st = []")
    case True
    with assms loop show ?thesis by (auto simp: install_def split: if_splits)
  next
    case False
    with assms loop have "bundleAndEmit h config st = (evs, Inr (Installed im))"
      by (auto simp: install_def split: if_splits)
    from bundleAndEmit_Installed[OF this] loop show ?thesis by blast
  qed
qed

lemma install_step_entries:
  assumes "install_step h config lockfile s st = Inr st'"
  shows "fst ` set (installEntrypoints st')
           \<subseteq> insert (getWebDependencyName h s) (fst ` set (installEntrypoints st))"
proof -
  from assms have "installEntrypoints st' = installEntrypoints st
      \<or> (\<exists>v. installEntrypoints st' = assign (getWebDependencyName h s) v (installEntrypoints st))"
    by (auto simp: install_step_def Let_def split: option.splits sum.splits dep_type.splits)
  then show ?thesis
  proof (elim disjE exE)
    assume "installEntrypoints st' = installEntrypoints st"
    then show ?thesis by auto
  next
    fix v
    assume "installEntrypoints st' = assign (getWebDependencyName h s) v (installEntrypoints st)"
    then show ?thesis by (auto simp: keys_assign)
  qed
qed

lemma install_loop_entries:
  "install_loop h config lockfile specs st0 = Inr st \<Longrightarrow>
     fst ` set (installEntrypoints st)
       \<subseteq> fst ` set (installEntrypoints st0) \<union> getWebDependencyName h ` set specs"
proof (induction specs arbitrary: st0)
  case Nil
  then show ?case by simp
next
  case (Cons s specs)
  from Cons.prems obtain st1 where s1: "install_step h config lockfile s st0 = Inr st1"
    and l1: "install_loop h config lockfile specs st1 = Inr st"
    by (auto split: sum.splits)
  from Cons.IH[OF l1] install_step_entries[OF s1] show ?case by auto
qed

lemma install_loop_resolved:
  "install_loop h config lockfile specs st0 = Inr st \<Longrightarrow> s \<in> set specs \<Longrightarrow>
     lockfileEntry lockfile s \<noteq> None \<or> (\<exists>d. resolveWebDependency h s = Inr d)"
proof (induction specs arbitrary: st0)
  case Nil
  then show ?case by simp
next
  case (Cons a specs)
  from Cons.prems(1) obtain st1 where s1: "install_step h config lockfile a st0 = Inr st1"
    and l1: "install_loop h config lockfile specs st1 = Inr st"
    by (auto split: sum.splits)
  show ?case
  proof (cases "s = a")
    case True
    with s1 show ?thesis
      by (auto simp: install_step_def Let_def split: option.splits sum.splits)
  next
    case False
    with Cons.prems(2) have "s \<in> set specs" by simp
    from Cons.IH[OF l1 this] show ?thesis .
  qed
qed

lemma install_step_nothing:
  assumes "install_step h config lockfile s st = Inr st'"
    and "getWebDependencyName h s \<noteq> ''__proto__''"
    and "installEntrypoints st' = []" and "assetEntrypoints st' = []"
  shows "st' = st"
  using assms
  by (auto simp: install_step_def Let_def assign_def
           split: option.splits sum.splits dep_type.splits)

lemma install_loop_nothing:
  "install_loop h config lockfile specs st0 = Inr st \<Longrightarrow>
     ''__proto__'' \<notin> getWebDependencyName h ` set specs \<Longrightarrow>
     installEntrypoints st = [] \<Longrightarrow> assetEntrypoints st = [] \<Longrightarrow> st = st0"
proof (induction specs arbitrary: st0)
  case Nil
  then show ?case by simp
next
  case (Cons s specs)
  from Cons.prems(1) obtain st1 where s1: "install_step h config lockfile s st0 = Inr st1"
    and l1: "install_loop h config lockfile specs st1 = Inr st"
    by (auto split: sum.splits)
  from Cons.prems(2) have n: "getWebDependencyName h s \<noteq> ''__proto__''"
    and ns: "''__proto__'' \<notin> getWebDependencyName h ` set specs"
    by auto
  from Cons.IH[OF l1 ns Cons.prems(3,4)] have "st = st1" .
  with install_step_nothing[OF s1 n] Cons.prems(3,4) show ?case by simp
qed

subsection \<open>Nothing to install\<close>

text \<open>
  C10: when the loop over the install specifiers ends with no script entry point and no
  asset entry point, \<^verbatim>\<open>install\<close> returns success with the import map built so far. The
  trace is empty: the bundler is not invoked and the import-map file is not written.
  The import map built so far is then the empty one, since every round that adds a key
  also adds an entry point; the one exception is a round for the target name
  \<^verbatim>\<open>__proto__\<close>, under which JavaScript stores no entry point.
\<close>

theorem install_nothing_to_install:
  assumes "webDependencies config \<noteq> None \<or> pnp h \<or> nodeModulesInstalled h"
    and "install_loop h config lockfile (allInstallSpecifiers h config installTargets)
           initial_vars = Inr st"
    and "installEntrypoints st = []" and "assetEntrypoints st = []"
  shows "install h installTargets lockfile config = ([], Inr (Installed (importMapImports st)))
         \<and> (''__proto__'' \<notin> getWebDependencyName h
                                ` set (allInstallSpecifiers h config installTargets)
              \<longrightarrow> importMapImports st = [])"
proof -
  have "importMapImports st = []"
    if "''__proto__'' \<notin> getWebDependencyName h
                          ` set (allInstallSpecifiers h config installTargets)"
  proof -
    from install_loop_nothing[OF assms(2) that assms(3,4)] have "st = initial_vars" .
    then show ?thesis by (simp add: initial_vars_def)
  qed
  moreover from assms have
    "install h installTargets lockfile config = ([], Inr (Installed (importMapImports st)))"
    by (auto simp: install_def)
  ultimately show ?thesis by simp
qed

theorem install_nothing_to_install_witness:
  "install example_host [createInstallTarget ''react'' True, createInstallTarget ''csstype'' True]
     None (example_config\<lparr>externalPackage := [''react'']\<rparr>) = ([], Inr (Installed []))"
proof -
  let ?c = "example_config\<lparr>externalPackage := [''react'']\<rparr>"
  let ?T = "[createInstallTarget ''react'' True, createInstallTarget ''csstype'' True]"
  have specs: "allInstallSpecifiers example_host ?c ?T = [''csstype'']"
    by (simp add: ex_defs inst_defs)
  have loop: "install_loop example_host ?c None (allInstallSpecifiers example_host ?c ?T)
                initial_vars = Inr initial_vars"
    unfolding specs by (simp add: ex_defs res_defs inst_defs Let_def)
  have ok: "webDependencies ?c \<noteq> None \<or> pnp example_host \<or> nodeModulesInstalled example_host"
    by (simp add: example_host_def)
  have names: "''__proto__'' \<notin> getWebDependencyName example_host
                                   ` set (allInstallSpecifiers example_host ?c ?T)"
    unfolding specs by (simp add: ex_defs inst_defs)
  from install_nothing_to_install[OF ok loop] names show ?thesis
    by (simp add: initial_vars_def)
qed

text \<open>
  The specifier \<^verbatim>\<open>__proto__\<close> with a lockfile: \<^verbatim>\<open>lockfile.imports\<close> inherits a value under that
  name, so the resolver is not asked, and neither the entry point nor the key of the
  import map is stored.
\<close>

lemma ex_install_proto:
  "install example_host [createInstallTarget ''__proto__'' True] (Some []) example_config
     = ([], Inr (Installed []))"
  by (simp add: ex_defs res_defs inst_defs Let_def)

text \<open>
  The lockfile has an entry for \<^verbatim>\<open>__proto__.js\<close>, and no package name begins with an
  underscore, so the target name is \<^verbatim>\<open>__proto__\<close>: the round stores no entry point and
  adds the key, and \<^verbatim>\<open>install\<close> has nothing to install with an import map that is not
  empty.
\<close>

lemma ex_install_proto_js:
  "install (example_host\<lparr>validForNewPackages :=
                            (\<lambda>s. CHR ''/'' \<notin> set s \<and> \<not> prefix ''_'' s)\<rparr>)
     [createInstallTarget ''__proto__.js'' True] (Some [(''__proto__.js'', ''./p.js'')])
     example_config
     = ([], Inr (Installed [(''__proto__.js'', ''./__proto__.js'')]))"
  by (simp add: ex_defs res_defs inst_defs Let_def)

subsection \<open>The keys of the import map\<close>

text \<open>
  C7, as the code has it: when \<^verbatim>\<open>install\<close> succeeds, the keys of its import map are the
  install specifiers (the specifiers of the targets that are not externalized, after
  alias rewriting) for which the lockfile has a value (a URL of its own that is not
  empty, or a property that \<^verbatim>\<open>lockfile.imports\<close> inherits) or that the resolver finds as a
  script or an asset, together with every alias name whose alias value is an install
  specifier without a lockfile value that the resolver finds as a script; the name
  \<^verbatim>\<open>__proto__\<close> is never a key. When no alias is configured this is the set of the input
  target specifiers minus the externalized ones, minus those without a lockfile value
  that are resolved as Ignore, and minus \<^verbatim>\<open>__proto__\<close>.
\<close>

theorem import_map_keys:
  assumes "install h installTargets lockfile config = (evs, Inr (Installed im))"
  shows "fst ` set im =
           servedSpecifiers h lockfile (allInstallSpecifiers h config installTargets)
             \<union> aliasKeysOf h config lockfile (allInstallSpecifiers h config installTargets)
         \<and> set (allInstallSpecifiers h config installTargets) =
             set (map (resolveAlias h config) (survivingSpecifiers config installTargets))
         \<and> (installAlias config = [] \<and> (\<forall>s. findMatchingAliasEntry h config s = None) \<longrightarrow>
               fst ` set im =
                 set (filter (\<lambda>s. s \<noteq> ''__proto__''
                                   \<and> \<not> (lockfileEntry lockfile s = None
                                          \<and> resolvedType h s = Some IGNORE))
                             (survivingSpecifiers config installTargets)))"
proof -
  let ?specs = "allInstallSpecifiers h config installTargets"
  from install_Installed[OF assms] obtain st where
    loop: "install_loop h config lockfile ?specs initial_vars = Inr st"
    and im: "im = importMapImports st"
    by blast
  from install_loop_keys[OF loop] im have keys:
    "fst ` set im = servedSpecifiers h lockfile ?specs \<union> aliasKeysOf h config lockfile ?specs"
    by (simp add: initial_vars_def)
  have specs: "set ?specs =
      set (map (resolveAlias h config) (survivingSpecifiers config installTargets))"
    by (rule set_allInstallSpecifiers)
  have plain: "fst ` set im =
      set (filter (\<lambda>s. s \<noteq> ''__proto__''
                        \<and> \<not> (lockfileEntry lockfile s = None \<and> resolvedType h s = Some IGNORE))
                  (survivingSpecifiers config installTargets))"
    if noalias: "installAlias config = []" and nomatch: "\<forall>s. findMatchingAliasEntry h config s = None"
  proof -
    from nomatch have "resolveAlias h config = (\<lambda>s. s)"
      by (auto simp: resolveAlias_def)
    with specs have specs': "set ?specs = set (survivingSpecifiers config installTargets)"
      by simp
    from noalias have "aliasKeysOf h config lockfile ?specs = {}"
      by (simp add: aliasKeysOf_def)
    moreover have "servedSpecifiers h lockfile ?specs =
        {s \<in> set ?specs. s \<noteq> ''__proto__''
             \<and> \<not> (lockfileEntry lockfile s = None \<and> resolvedType h s = Some IGNORE)}"
    proof -
      have "(lockfileEntry lockfile s \<noteq> None
               \<or> (\<exists>d. resolveWebDependency h s = Inr d \<and> type d \<noteq> IGNORE))
            = (\<not> (lockfileEntry lockfile s = None \<and> resolvedType h s = Some IGNORE))"
        if "s \<in> set ?specs" for s
      proof (cases "lockfileEntry lockfile s")
        case (Some url)
        then show ?thesis by simp
      next
        case None
        with install_loop_resolved[OF loop that] obtain d where
          "resolveWebDependency h s = Inr d" by auto
        with None show ?thesis by (simp add: resolvedType_def)
      qed
      then show ?thesis unfolding servedSpecifiers_iff by blast
    qed
    ultimately show ?thesis using keys specs' by auto
  qed
  from keys specs plain show ?thesis by blast
qed

lemma ex_install_alias:
  "install example_host [createInstallTarget ''react'' True]
     None (example_config\<lparr>installAlias := [(''my-react'', ''react'')]\<rparr>)
   = ([Rollup [(''react'', JStr ''/app/node_modules/react/index.js'')],
       WriteLockfile ''/app/web_modules/import-map.json''
         [(''react'', ''./react.js''), (''my-react'', ''./react.js'')]],
      Inr (Installed [(''react'', ''./react.js''), (''my-react'', ''./react.js'')]))"
  by (simp add: ex_defs res_defs inst_defs Let_def)

text \<open>
  With the alias \<^verbatim>\<open>my-react\<close> for \<^verbatim>\<open>react\<close> configured and \<^verbatim>\<open>react\<close> the only target, the
  import map has the key \<^verbatim>\<open>my-react\<close>, which is no target specifier.
\<close>

theorem import_map_keys_counterexample:
  "snd (install example_host [createInstallTarget ''react'' True]
          None (example_config\<lparr>installAlias := [(''my-react'', ''react'')]\<rparr>))
     = Inr (Installed [(''react'', ''./react.js''), (''my-react'', ''./react.js'')])
   \<and> ''my-react'' \<in> fst ` set [(''react'', ''./react.js''), (''my-react'', ''./react.js'')]
   \<and> ''my-react'' \<notin> specifier ` set [createInstallTarget ''react'' True]"
  using ex_install_alias by (simp add: createInstallTarget_def)

lemma ex_install_plain:
  "install example_host
     [createInstallTarget ''csstype'' True, createInstallTarget ''preact'' True,
      createInstallTarget ''react'' True]
     None (example_config\<lparr>externalPackage := [''preact'']\<rparr>)
   = ([Rollup [(''react'', JStr ''/app/node_modules/react/index.js'')],
       WriteLockfile ''/app/web_modules/import-map.json'' [(''react'', ''./react.js'')]],
      Inr (Installed [(''react'', ''./react.js'')]))"
  by (simp add: ex_defs res_defs inst_defs Let_def)

theorem import_map_keys_witness:
  "fst ` set [(''react'', ''./react.js'')] =
     set (filter (\<lambda>s. s \<noteq> ''__proto__''
                       \<and> \<not> (lockfileEntry None s = None
                              \<and> resolvedType example_host s = Some IGNORE))
                 (survivingSpecifiers (example_config\<lparr>externalPackage := [''preact'']\<rparr>)
                    [createInstallTarget ''csstype'' True, createInstallTarget ''preact'' True,
                     createInstallTarget ''react'' True]))"
proof -
  have "installAlias (example_config\<lparr>externalPackage := [''preact'']\<rparr>) = []"
    by (simp add: example_config_def)
  moreover have "\<forall>s. findMatchingAliasEntry example_host
                       (example_config\<lparr>externalPackage := [''preact'']\<rparr>) s = None"
    by (simp add: ex_defs)
  ultimately show ?thesis
    using import_map_keys[OF ex_install_plain] by blast
qed

subsection \<open>Externalized packages\<close>

text \<open>
  C4, as the code has it: a target whose specifier is covered by an externalized
  package (\<^verbatim>\<open>spec == ext\<close> or \<^verbatim>\<open>spec\<close> starts with \<^verbatim>\<open>ext + "/"\<close>) is filtered out before
  alias rewriting. Unless an alias leads back to the specifier (a surviving target is
  rewritten to it, or it is itself an alias name), it is no install specifier, every
  entry handed to the bundler comes from an install specifier, and it is no key of the
  import map. The bundler's \<^verbatim>\<open>external\<close> option is the same test.
\<close>

theorem external_target_absent:
  assumes "isExternal config spec"
    and "\<forall>t \<in> set installTargets.
           \<not> isExternal config (specifier t) \<longrightarrow> resolveAlias h config (specifier t) \<noteq> spec"
    and "spec \<notin> fst ` set (installAlias config)"
    and "install h installTargets lockfile config = (evs, Inr (Installed im))"
  shows "spec \<notin> set (survivingSpecifiers config installTargets)
         \<and> spec \<notin> set (allInstallSpecifiers h config installTargets)
         \<and> fst ` set (rollupInputs evs)
               \<subseteq> getWebDependencyName h ` set (allInstallSpecifiers h config installTargets)
         \<and> spec \<notin> fst ` set im
         \<and> external (inputOptions config st) = isExternal config"
proof -
  let ?specs = "allInstallSpecifiers h config installTargets"
  from install_Installed[OF assms(4)] obtain st' where
    loop: "install_loop h config lockfile ?specs initial_vars = Inr st'"
    and im: "im = importMapImports st'"
    and inputs: "rollupInputs evs = installEntrypoints st'"
    by blast
  from assms(1) have filtered: "spec \<notin> set (survivingSpecifiers config installTargets)"
    by (auto simp: survivingSpecifiers_def)
  from assms(2) have notin: "spec \<notin> set ?specs"
    unfolding set_allInstallSpecifiers by (auto simp: survivingSpecifiers_def)
  from install_loop_entries[OF loop] inputs have entries:
    "fst ` set (rollupInputs evs) \<subseteq> getWebDependencyName h ` set ?specs"
    by (simp add: initial_vars_def)
  from install_loop_keys[OF loop] im have
    "fst ` set im = servedSpecifiers h lockfile ?specs \<union> aliasKeysOf h config lockfile ?specs"
    by (simp add: initial_vars_def)
  moreover from notin have "spec \<notin> servedSpecifiers h lockfile ?specs"
    by (simp add: servedSpecifiers_iff)
  moreover from assms(3) have "spec \<notin> aliasKeysOf h config lockfile ?specs"
    by (force simp: aliasKeysOf_iff)
  ultimately have keys: "spec \<notin> fst ` set im" by simp
  have ext: "external (inputOptions config st) = isExternal config"
    by (rule ext) (simp add: inputOptions_def isExternal_def)
  from filtered notin entries keys ext show ?thesis by blast
qed

theorem external_target_absent_witness:
  "isExternal (example_config\<lparr>externalPackage := [''preact'']\<rparr>) ''preact''
   \<and> ''preact'' \<notin> set (allInstallSpecifiers example_host
                          (example_config\<lparr>externalPackage := [''preact'']\<rparr>)
                          [createInstallTarget ''csstype'' True, createInstallTarget ''preact'' True,
                           createInstallTarget ''react'' True])
   \<and> ''preact'' \<notin> fst ` set [(''react'', ''./react.js'')]"
proof -
  let ?c = "example_config\<lparr>externalPackage := [''preact'']\<rparr>"
  let ?T = "[createInstallTarget ''csstype'' True, createInstallTarget ''preact'' True,
             createInstallTarget ''react'' True]"
  have ext: "isExternal ?c ''preact''"
    by (simp add: ex_defs isExternal_def isImportOfPackage_def)
  have noalias: "\<forall>t \<in> set ?T. \<not> isExternal ?c (specifier t)
                   \<longrightarrow> resolveAlias example_host ?c (specifier t) \<noteq> ''preact''"
    by (simp add: ex_defs isExternal_def isImportOfPackage_def resolveAlias_def)
  have nokey: "''preact'' \<notin> fst ` set (installAlias ?c)"
    by (simp add: ex_defs)
  from external_target_absent[OF ext noalias nokey ex_install_plain] ext show ?thesis
    by blast
qed

lemma ex_install_external_alias:
  "install example_host [createInstallTarget ''preact'' True, createInstallTarget ''react'' True]
     None (example_config\<lparr>installAlias := [(''react'', ''preact'')], externalPackage := [''react'']\<rparr>)
   = ([Rollup [(''preact'', JStr ''/app/node_modules/preact/dist/preact.module.js'')],
       WriteLockfile ''/app/web_modules/import-map.json''
         [(''preact'', ''./preact.js''), (''react'', ''./preact.js'')]],
      Inr (Installed [(''preact'', ''./preact.js''), (''react'', ''./preact.js'')]))"
  by (simp add: ex_defs res_defs inst_defs Let_def)

text \<open>
  \<^verbatim>\<open>react\<close> is externalized and is also the alias name of \<^verbatim>\<open>preact\<close>: the target \<^verbatim>\<open>react\<close>
  is filtered out, and installing \<^verbatim>\<open>preact\<close> still writes the key \<^verbatim>\<open>react\<close>.
\<close>

theorem external_target_absent_counterexample:
  "isImportOfPackage ''react'' ''react''
   \<and> snd (install example_host
            [createInstallTarget ''preact'' True, createInstallTarget ''react'' True] None
            (example_config\<lparr>installAlias := [(''react'', ''preact'')],
                             externalPackage := [''react'']\<rparr>))
       = Inr (Installed [(''preact'', ''./preact.js''), (''react'', ''./preact.js'')])
   \<and> ''react'' \<in> fst ` set [(''preact'', ''./preact.js''), (''react'', ''./preact.js'')]"
  using ex_install_external_alias by (simp add: createInstallTarget_def isImportOfPackage_def)

lemma install_step_entries_mono:
  assumes "install_step h config lockfile s st = Inr st'"
  shows "fst ` set (installEntrypoints st) \<subseteq> fst ` set (installEntrypoints st')"
proof -
  from assms have "installEntrypoints st' = installEntrypoints st
      \<or> (\<exists>v. installEntrypoints st' = assign (getWebDependencyName h s) v (installEntrypoints st))"
    by (auto simp: install_step_def Let_def split: option.splits sum.splits dep_type.splits)
  then show ?thesis
  proof (elim disjE exE)
    assume "installEntrypoints st' = installEntrypoints st"
    then show ?thesis by auto
  next
    fix v
    assume "installEntrypoints st' = assign (getWebDependencyName h s) v (installEntrypoints st)"
    then show ?thesis by (auto simp: keys_assign)
  qed
qed

lemma install_loop_entries_mono:
  "install_loop h config lockfile specs st0 = Inr st \<Longrightarrow>
     fst ` set (installEntrypoints st0) \<subseteq> fst ` set (installEntrypoints st)"
proof (induction specs arbitrary: st0)
  case Nil
  then show ?case by simp
next
  case (Cons s specs)
  from Cons.prems obtain st1 where s1: "install_step h config lockfile s st0 = Inr st1"
    and l1: "install_loop h config lockfile specs st1 = Inr st"
    by (auto split: sum.splits)
  from Cons.IH[OF l1] install_step_entries_mono[OF s1] show ?case by blast
qed

lemma install_step_lockfile:
  assumes "lockfileEntry lockfile spec = Some v"
  shows "install_step h config lockfile spec st =
           Inr (st\<lparr>installEntrypoints :=
                     assign (getWebDependencyName h spec) v (installEntrypoints st),
                   importMapImports :=
                     assign spec
                       (''./'' @ sanitizePackageName h (getWebDependencyName h spec) @ ''.js'')
                       (importMapImports st),
                   installResults :=
                     installResults st @ [(getWebDependencyName h spec, SUCCESS)]\<rparr>)"
  using assms by (simp add: install_step_def Let_def)

lemma install_loop_lockfile_entry:
  "install_loop h config lockfile specs st0 = Inr st \<Longrightarrow> spec \<in> set specs \<Longrightarrow>
     lockfileEntry lockfile spec = Some v \<Longrightarrow> getWebDependencyName h spec \<noteq> ''__proto__'' \<Longrightarrow>
     getWebDependencyName h spec \<in> fst ` set (installEntrypoints st)"
proof (induction specs arbitrary: st0)
  case Nil
  then show ?case by simp
next
  case (Cons s specs)
  from Cons.prems(1) obtain st1 where s1: "install_step h config lockfile s st0 = Inr st1"
    and l1: "install_loop h config lockfile specs st1 = Inr st"
    by (auto split: sum.splits)
  show ?case
  proof (cases "spec = s")
    case True
    with s1 Cons.prems(3,4) have
      "getWebDependencyName h spec \<in> fst ` set (installEntrypoints st1)"
      by (auto simp: install_step_lockfile keys_assign)
    with install_loop_entries_mono[OF l1] show ?thesis by blast
  next
    case False
    with Cons.prems(2) have "spec \<in> set specs" by simp
    from Cons.IH[OF l1 this Cons.prems(3,4)] show ?thesis .
  qed
qed

lemma map_of_expandAliases_fold:
  "spec \<notin> fst ` set al \<Longrightarrow>
     map_of (fold (\<lambda>(key, val) acc. if val = s then assign key v acc else acc) al im) spec
       = map_of im spec"
proof (induction al arbitrary: im)
  case Nil
  show ?case by simp
next
  case (Cons a al)
  obtain k v' where a: "a = (k, v')" by (cases a)
  from Cons.prems a have "k \<noteq> spec" and "spec \<notin> fst ` set al" by auto
  with Cons.IH show ?case by (simp add: a map_of_assign)
qed

lemma map_of_expandAliases:
  "spec \<notin> fst ` set (installAlias config) \<Longrightarrow>
     map_of (expandAliases config s n im) spec = map_of im spec"
  by (simp add: expandAliases_def map_of_expandAliases_fold)

lemma install_step_import_kept:
  assumes step: "install_step h config lockfile s st = Inr st'"
    and entry: "lockfileEntry lockfile spec = Some v"
    and proto: "spec \<noteq> ''__proto__''"
    and noalias: "spec \<notin> fst ` set (installAlias config)"
    and before: "s = spec \<or> map_of (importMapImports st) spec =
                    Some (''./'' @ sanitizePackageName h (getWebDependencyName h spec) @ ''.js'')"
  shows "map_of (importMapImports st') spec =
           Some (''./'' @ sanitizePackageName h (getWebDependencyName h spec) @ ''.js'')"
proof (cases "s = spec")
  case True
  with step entry proto show ?thesis
    by (auto simp: install_step_lockfile map_of_assign)
next
  case False
  with before have b: "map_of (importMapImports st) spec =
      Some (''./'' @ sanitizePackageName h (getWebDependencyName h spec) @ ''.js'')"
    by simp
  from step False b noalias show ?thesis
    by (auto simp: install_step_def Let_def map_of_assign map_of_expandAliases
             split: option.splits sum.splits dep_type.splits)
qed

lemma install_loop_import_kept:
  "install_loop h config lockfile specs st0 = Inr st \<Longrightarrow>
     lockfileEntry lockfile spec = Some v \<Longrightarrow> spec \<noteq> ''__proto__'' \<Longrightarrow>
     spec \<notin> fst ` set (installAlias config) \<Longrightarrow>
     spec \<in> set specs \<or> map_of (importMapImports st0) spec =
        Some (''./'' @ sanitizePackageName h (getWebDependencyName h spec) @ ''.js'') \<Longrightarrow>
     map_of (importMapImports st) spec =
        Some (''./'' @ sanitizePackageName h (getWebDependencyName h spec) @ ''.js'')"
proof (induction specs arbitrary: st0)
  case Nil
  then show ?case by simp
next
  case (Cons s specs)
  let ?local = "''./'' @ sanitizePackageName h (getWebDependencyName h spec) @ ''.js''"
  from Cons.prems(1) obtain st1 where s1: "install_step h config lockfile s st0 = Inr st1"
    and l1: "install_loop h config lockfile specs st1 = Inr st"
    by (auto split: sum.splits)
  show ?case
  proof (cases "s = spec \<or> map_of (importMapImports st0) spec = Some ?local")
    case True
    from install_step_import_kept[OF s1 Cons.prems(2,3,4) True]
    have "map_of (importMapImports st1) spec = Some ?local" .
    then have "spec \<in> set specs \<or> map_of (importMapImports st1) spec = Some ?local" by simp
    from Cons.IH[OF l1 Cons.prems(2,3,4) this] show ?thesis .
  next
    case False
    with Cons.prems(5) have "spec \<in> set specs" by auto
    then have "spec \<in> set specs \<or> map_of (importMapImports st1) spec = Some ?local" by simp
    from Cons.IH[OF l1 Cons.prems(2,3,4) this] show ?thesis .
  qed
qed

lemma install_step_entry_kept:
  assumes step: "install_step h config lockfile s st = Inr st'"
    and entry: "lockfileEntry lockfile spec = Some v"
    and proto: "getWebDependencyName h spec \<noteq> ''__proto__''"
    and name: "getWebDependencyName h s = getWebDependencyName h spec \<longrightarrow> s = spec"
    and before: "s = spec \<or> map_of (installEntrypoints st) (getWebDependencyName h spec) = Some v"
  shows "map_of (installEntrypoints st') (getWebDependencyName h spec) = Some v"
proof (cases "s = spec")
  case True
  with step entry proto show ?thesis
    by (auto simp: install_step_lockfile map_of_assign)
next
  case False
  with before have b: "map_of (installEntrypoints st) (getWebDependencyName h spec) = Some v"
    by simp
  from False name have "getWebDependencyName h s \<noteq> getWebDependencyName h spec" by auto
  with step b show ?thesis
    by (auto simp: install_step_def Let_def map_of_assign
             split: option.splits sum.splits dep_type.splits)
qed

lemma install_loop_entry_kept:
  "install_loop h config lockfile specs st0 = Inr st \<Longrightarrow>
     lockfileEntry lockfile spec = Some v \<Longrightarrow> getWebDependencyName h spec \<noteq> ''__proto__'' \<Longrightarrow>
     \<forall>s \<in> set specs. getWebDependencyName h s = getWebDependencyName h spec \<longrightarrow> s = spec \<Longrightarrow>
     spec \<in> set specs \<or> map_of (installEntrypoints st0) (getWebDependencyName h spec) = Some v \<Longrightarrow>
     map_of (installEntrypoints st) (getWebDependencyName h spec) = Some v"
proof (induction specs arbitrary: st0)
  case Nil
  then show ?case by simp
next
  case (Cons s specs)
  let ?n = "getWebDependencyName h spec"
  from Cons.prems(1) obtain st1 where s1: "install_step h config lockfile s st0 = Inr st1"
    and l1: "install_loop h config lockfile specs st1 = Inr st"
    by (auto split: sum.splits)
  from Cons.prems(4) have n: "getWebDependencyName h s = ?n \<longrightarrow> s = spec"
    and ns: "\<forall>s \<in> set specs. getWebDependencyName h s = ?n \<longrightarrow> s = spec"
    by auto
  show ?case
  proof (cases "s = spec \<or> map_of (installEntrypoints st0) ?n = Some v")
    case True
    from install_step_entry_kept[OF s1 Cons.prems(2,3) n True]
    have "map_of (installEntrypoints st1) ?n = Some v" .
    then have "spec \<in> set specs \<or> map_of (installEntrypoints st1) ?n = Some v" by simp
    from Cons.IH[OF l1 Cons.prems(2,3) ns this] show ?thesis .
  next
    case False
    with Cons.prems(5) have "spec \<in> set specs" by auto
    then have "spec \<in> set specs \<or> map_of (installEntrypoints st1) ?n = Some v" by simp
    from Cons.IH[OF l1 Cons.prems(2,3) ns this] show ?thesis .
  qed
qed

subsection \<open>Lockfile entries\<close>

text \<open>
  C1, as the code has it: let the lockfile have a value for an install specifier, that
  is, let \<^verbatim>\<open>lockfile.imports[specifier]\<close> be truthy (a URL of its own that is not empty, or
  a property inherited from \<^verbatim>\<open>Object.prototype\<close>, as for \<^verbatim>\<open>constructor\<close>). The round of the
  loop for this specifier does not consult the resolver (it is the same whatever the
  resolver's host functions are): it enters the lockfile value as the bundler's entry
  point under the target name and maps the specifier to the local form \<^verbatim>\<open>./<name>.js\<close>,
  where an assignment under the name \<^verbatim>\<open>__proto__\<close> has no effect. So the target is an
  input of the bundler and is not excluded: when \<^verbatim>\<open>install\<close> succeeds and the target name
  is not \<^verbatim>\<open>__proto__\<close>, the bundler is invoked with an entry under the target name, and its
  value is the lockfile value if no other install specifier has the same target name;
  and when the specifier is not \<^verbatim>\<open>__proto__\<close> it is a key of the import map, with the local
  form as its value if the specifier is not also an alias name.
\<close>

theorem lockfile_entry_is_bundler_input:
  assumes "lockfileEntry lockfile spec = Some v"
  shows "install_step h config lockfile spec st =
           Inr (st\<lparr>installEntrypoints :=
                     assign (getWebDependencyName h spec) v (installEntrypoints st),
                   importMapImports :=
                     assign spec
                       (''./'' @ sanitizePackageName h (getWebDependencyName h spec) @ ''.js'')
                       (importMapImports st),
                   installResults :=
                     installResults st @ [(getWebDependencyName h spec, SUCCESS)]\<rparr>)
         \<and> install_step (h\<lparr>extname := e, parsePackageImportSpecifier := pp,
                             resolveDependencyManifest := m, requireResolveFrom := rf,
                             requireResolve := r, pathJoin := pj, arrayPrototypeKeys := ak\<rparr>)
               config lockfile spec st
             = install_step h config lockfile spec st
         \<and> (spec \<in> set (allInstallSpecifiers h config installTargets)
              \<and> install h installTargets lockfile config = (evs, Inr (Installed im)) \<longrightarrow>
             (getWebDependencyName h spec \<noteq> ''__proto__'' \<longrightarrow>
                getWebDependencyName h spec \<in> fst ` set (rollupInputs evs)
                \<and> ((\<forall>s \<in> set (allInstallSpecifiers h config installTargets).
                       getWebDependencyName h s = getWebDependencyName h spec \<longrightarrow> s = spec)
                    \<longrightarrow> map_of (rollupInputs evs) (getWebDependencyName h spec) = Some v))
             \<and> (spec \<noteq> ''__proto__'' \<longrightarrow>
                  spec \<in> fst ` set im
                  \<and> (spec \<notin> fst ` set (installAlias config) \<longrightarrow>
                       map_of im spec =
                         Some (''./'' @ sanitizePackageName h (getWebDependencyName h spec)
                                 @ ''.js''))))"
proof -
  let ?specs = "allInstallSpecifiers h config installTargets"
  let ?n = "getWebDependencyName h spec"
  let ?local = "''./'' @ sanitizePackageName h ?n @ ''.js''"
  let ?h' = "h\<lparr>extname := e, parsePackageImportSpecifier := pp,
                 resolveDependencyManifest := m, requireResolveFrom := rf,
                 requireResolve := r, pathJoin := pj, arrayPrototypeKeys := ak\<rparr>"
  have names: "getWebDependencyName ?h' spec = ?n"
    by (simp add: getWebDependencyName_def)
  have round: "install_step h config lockfile spec st =
           Inr (st\<lparr>installEntrypoints := assign ?n v (installEntrypoints st),
                   importMapImports := assign spec ?local (importMapImports st),
                   installResults := installResults st @ [(?n, SUCCESS)]\<rparr>)"
    by (rule install_step_lockfile[OF assms])
  have same: "install_step ?h' config lockfile spec st = install_step h config lockfile spec st"
    by (simp add: install_step_lockfile[OF assms] names)
  have final: "(?n \<noteq> ''__proto__'' \<longrightarrow>
                ?n \<in> fst ` set (rollupInputs evs)
                \<and> ((\<forall>s \<in> set ?specs. getWebDependencyName h s = ?n \<longrightarrow> s = spec)
                    \<longrightarrow> map_of (rollupInputs evs) ?n = Some v))
             \<and> (spec \<noteq> ''__proto__'' \<longrightarrow>
                  spec \<in> fst ` set im
                  \<and> (spec \<notin> fst ` set (installAlias config) \<longrightarrow> map_of im spec = Some ?local))"
    if mem: "spec \<in> set ?specs"
      and ok: "install h installTargets lockfile config = (evs, Inr (Installed im))"
  proof -
    from install_Installed[OF ok] obtain stf where
      loop: "install_loop h config lockfile ?specs initial_vars = Inr stf"
      and im: "im = importMapImports stf"
      and inputs: "rollupInputs evs = installEntrypoints stf"
      by blast
    have a: "?n \<in> fst ` set (rollupInputs evs)" if "?n \<noteq> ''__proto__''"
      using install_loop_lockfile_entry[OF loop mem assms that] inputs by simp
    have b: "map_of (rollupInputs evs) ?n = Some v"
      if "?n \<noteq> ''__proto__''"
        and "\<forall>s \<in> set ?specs. getWebDependencyName h s = ?n \<longrightarrow> s = spec"
      using install_loop_entry_kept[OF loop assms that] mem inputs by simp
    have c: "spec \<in> fst ` set im" if "spec \<noteq> ''__proto__''"
    proof -
      from assms mem that have "spec \<in> servedSpecifiers h lockfile ?specs"
        by (simp add: servedSpecifiers_iff)
      with install_loop_keys[OF loop] im show ?thesis by simp
    qed
    have d: "map_of im spec = Some ?local"
      if "spec \<noteq> ''__proto__''" and "spec \<notin> fst ` set (installAlias config)"
      using install_loop_import_kept[OF loop assms that] mem im by simp
    from a b c d show ?thesis by blast
  qed
  from round same final show ?thesis by blast
qed

lemma ex_install_lockfile:
  "install example_host [createInstallTarget ''react'' True]
     (Some [(''react'', ''./react.v17.js'')])
     (example_config\<lparr>webDependencies := Some [(''react'', ''^17.0.0'')]\<rparr>)
   = ([Rollup [(''react'', JStr ''./react.v17.js'')],
       WriteLockfile ''/app/web_modules/import-map.json'' [(''react'', ''./react.js'')]],
      Inr (Installed [(''react'', ''./react.js'')]))"
  by (simp add: ex_defs res_defs inst_defs Let_def)

lemma ex_install_constructor:
  "install example_host [createInstallTarget ''constructor'' True] (Some [])
     (example_config\<lparr>webDependencies := Some [(''react'', ''^17.0.0'')]\<rparr>)
   = ([Rollup [(''constructor'', JNative ''constructor'')],
       WriteLockfile ''/app/web_modules/import-map.json''
         [(''constructor'', ''./constructor.js'')]],
      Inr (Installed [(''constructor'', ''./constructor.js'')]))"
  by (simp add: ex_defs res_defs inst_defs Let_def)

theorem lockfile_entry_is_bundler_input_witness:
  "map_of (rollupInputs
       [Rollup [(''react'', JStr ''./react.v17.js'')],
        WriteLockfile ''/app/web_modules/import-map.json'' [(''react'', ''./react.js'')]])
     ''react'' = Some (JStr ''./react.v17.js'')
   \<and> map_of [(''react'', ''./react.js'')] ''react'' = Some ''./react.js''
   \<and> map_of (rollupInputs
       [Rollup [(''constructor'', JNative ''constructor'')],
        WriteLockfile ''/app/web_modules/import-map.json''
          [(''constructor'', ''./constructor.js'')]])
     ''constructor'' = Some (JNative ''constructor'')
   \<and> map_of [(''constructor'', ''./constructor.js'')] ''constructor''
       = Some ''./constructor.js''"
proof -
  let ?c = "example_config\<lparr>webDependencies := Some [(''react'', ''^17.0.0'')]\<rparr>"
  let ?L = "Some [(''react'', ''./react.v17.js'')]"
  let ?T = "[createInstallTarget ''react'' True]"
  let ?K = "[createInstallTarget ''constructor'' True]"
  have entry: "lockfileEntry ?L ''react'' = Some (JStr ''./react.v17.js'')"
    by (simp add: lockfileEntry_def)
  have specs: "allInstallSpecifiers example_host ?c ?T = [''react'']"
    by (simp add: ex_defs inst_defs)
  have name: "getWebDependencyName example_host ''react'' = ''react''"
    by (simp add: ex_defs inst_defs)
  have noalias: "''react'' \<notin> fst ` set (installAlias ?c)"
    by (simp add: ex_defs)
  have local: "''./'' @ sanitizePackageName example_host ''react'' @ ''.js'' = ''./react.js''"
    by (simp add: ex_defs)
  have a: "map_of (rollupInputs
       [Rollup [(''react'', JStr ''./react.v17.js'')],
        WriteLockfile ''/app/web_modules/import-map.json'' [(''react'', ''./react.js'')]])
     ''react'' = Some (JStr ''./react.v17.js'')
   \<and> map_of [(''react'', ''./react.js'')] ''react'' = Some ''./react.js''"
    using lockfile_entry_is_bundler_input[OF entry, of example_host ?c _ _ _ _ _ _ _ _ ?T
         "[Rollup [(''react'', JStr ''./react.v17.js'')],
           WriteLockfile ''/app/web_modules/import-map.json'' [(''react'', ''./react.js'')]]"
         "[(''react'', ''./react.js'')]"]
      ex_install_lockfile noalias
    unfolding specs name local by simp
  have entry': "lockfileEntry (Some []) ''constructor'' = Some (JNative ''constructor'')"
    by (simp add: lockfileEntry_def object_prototype_keys_def)
  have specs': "allInstallSpecifiers example_host ?c ?K = [''constructor'']"
    by (simp add: ex_defs inst_defs)
  have name': "getWebDependencyName example_host ''constructor'' = ''constructor''"
    by (simp add: ex_defs inst_defs)
  have noalias': "''constructor'' \<notin> fst ` set (installAlias ?c)"
    by (simp add: ex_defs)
  have local': "''./'' @ sanitizePackageName example_host ''constructor'' @ ''.js''
                  = ''./constructor.js''"
    by (simp add: ex_defs)
  have b: "map_of (rollupInputs
       [Rollup [(''constructor'', JNative ''constructor'')],
        WriteLockfile ''/app/web_modules/import-map.json''
          [(''constructor'', ''./constructor.js'')]])
     ''constructor'' = Some (JNative ''constructor'')
   \<and> map_of [(''constructor'', ''./constructor.js'')] ''constructor''
       = Some ''./constructor.js''"
    using lockfile_entry_is_bundler_input[OF entry', of example_host ?c _ _ _ _ _ _ _ _ ?K
         "[Rollup [(''constructor'', JNative ''constructor'')],
           WriteLockfile ''/app/web_modules/import-map.json''
             [(''constructor'', ''./constructor.js'')]]"
         "[(''constructor'', ''./constructor.js'')]"]
      ex_install_constructor noalias'
    unfolding specs' name' local' by simp
  from a b show ?thesis by simp
qed

text \<open>
  The lockfile holds \<^verbatim>\<open>{"react": "./react.v17.js"}\<close>: \<^verbatim>\<open>react\<close> is handed to the bundler,
  with the lockfile URL as its entry point, and the import map has the local form.
\<close>

theorem lockfile_excluded_counterexample:
  "lockfileEntry (Some [(''react'', ''./react.v17.js'')]) ''react'' = Some (JStr ''./react.v17.js'')
   \<and> install example_host [createInstallTarget ''react'' True]
         (Some [(''react'', ''./react.v17.js'')])
         (example_config\<lparr>webDependencies := Some [(''react'', ''^17.0.0'')]\<rparr>)
       = ([Rollup [(''react'', JStr ''./react.v17.js'')],
           WriteLockfile ''/app/web_modules/import-map.json'' [(''react'', ''./react.js'')]],
          Inr (Installed [(''react'', ''./react.js'')]))"
  using ex_install_lockfile by (simp add: lockfileEntry_def)

lemma no_Rimraf_onwarn: "\<not> list_ex isRimraf (concat (map onwarn ws))"
proof (induction ws)
  case Nil
  show ?case by simp
next
  case (Cons w ws)
  then show ?case by (cases w) simp_all
qed

lemma no_Rimraf_CopyFile: "\<not> list_ex isRimraf (map (\<lambda>(a, b). CopyFile (f a b) (g a b)) xs)"
  by (induction xs) auto

lemma no_Rimraf_bundleAndEmit: "\<not> list_ex isRimraf (fst (bundleAndEmit h config st))"
proof -
  obtain ws err where r: "rollup h (inputOptions config st) = (ws, err)"
    by (cases "rollup h (inputOptions config st)")
  show ?thesis
    using no_Rimraf_onwarn[of ws]
      no_Rimraf_CopyFile[of "\<lambda>a b. b" "\<lambda>a b. dest config @ ''/'' @ sanitizePackageName h a"
                            "assetEntrypoints st"]
    by (cases err) (auto simp: bundleAndEmit_def r)
qed

lemma no_Rimraf_install: "\<not> list_ex isRimraf (fst (install h installTargets lockfile config))"
  using no_Rimraf_bundleAndEmit
  by (auto simp: install_def split: sum.splits)

subsection \<open>The output directory\<close>

text \<open>
  C8, as the code has it: a run with no install target returns success at once and
  touches nothing. A run with install targets that does not exit in the remote step removes
  the output directory once, before \<^verbatim>\<open>install\<close> begins, hence before anything is
  emitted; the directory is written again only by what \<^verbatim>\<open>install\<close> emits.
\<close>

theorem run_removes_dest_before_install:
  "(installTargets = [] \<longrightarrow>
      run h config lockfile installTargets
        = ([], Returned \<lparr>success = True, hasError = False, importMap = Some [],
                         newLockfile = None\<rparr>))
   \<and> (installTargets \<noteq> [] \<and> snd (run h config lockfile installTargets) \<noteq> Exited \<longrightarrow>
        (\<exists>newLock. fst (run h config lockfile installTargets) =
                      Rimraf (dest config) # fst (install h installTargets newLock config))
        \<and> \<not> list_ex isRimraf (tl (fst (run h config lockfile installTargets))))"
proof -
  have empty: "run h config lockfile installTargets
        = ([], Returned \<lparr>success = True, hasError = False, importMap = Some [],
                         newLockfile = None\<rparr>)" if "installTargets = []"
    using that by (simp add: run_def)
  have first: "(\<exists>newLock. fst (run h config lockfile installTargets) =
                      Rimraf (dest config) # fst (install h installTargets newLock config))
        \<and> \<not> list_ex isRimraf (tl (fst (run h config lockfile installTargets)))"
    if ne: "installTargets \<noteq> []" and ex: "snd (run h config lockfile installTargets) \<noteq> Exited"
  proof -
    let ?remote = "case webDependencies config of
                Some deps \<Rightarrow>
                  (if deps \<noteq> [] then resolveTargetsFromRemoteCDN h lockfile config
                   else Inr None)
              | None \<Rightarrow> Inr None"
    from ne ex obtain newLock where nl: "?remote = Inr newLock"
      by (cases ?remote) (auto simp: run_def)
    obtain evs res where i: "install h installTargets newLock config = (evs, res)"
      by (cases "install h installTargets newLock config")
    from ne nl i have "fst (run h config lockfile installTargets) = Rimraf (dest config) # evs"
      by (auto simp: run_def split: sum.splits InstallResult.splits)
    with i no_Rimraf_install[of h installTargets newLock config] show ?thesis
      by (metis fst_conv list.sel(3))
  qed
  from empty first show ?thesis by blast
qed

lemma ex_run_external:
  "run example_host (example_config\<lparr>externalPackage := [''react'']\<rparr>) None
     [createInstallTarget ''react'' True]
   = ([Rimraf ''/app/web_modules''],
      Returned \<lparr>success = True, hasError = False, importMap = Some [], newLockfile = None\<rparr>)"
  by (simp add: run_def ex_defs res_defs inst_defs Let_def)

theorem run_removes_dest_before_install_witness:
  "fst (run example_host (example_config\<lparr>externalPackage := [''react'']\<rparr>) None
          [createInstallTarget ''react'' True]) = [Rimraf ''/app/web_modules'']
   \<and> \<not> list_ex isRimraf (tl (fst (run example_host (example_config\<lparr>externalPackage := [''react'']\<rparr>)
                                   None [createInstallTarget ''react'' True])))"
proof -
  have ne: "[createInstallTarget ''react'' True] \<noteq> []" by simp
  have ex: "snd (run example_host (example_config\<lparr>externalPackage := [''react'']\<rparr>) None
                   [createInstallTarget ''react'' True]) \<noteq> Exited"
    by (simp add: ex_run_external)
  from run_removes_dest_before_install[of "[createInstallTarget ''react'' True]" example_host
         "example_config\<lparr>externalPackage := [''react'']\<rparr>" None] ne ex
  show ?thesis by (simp add: ex_run_external)
qed

text \<open>
  A run without targets removes nothing; a run whose only target is externalized
  removes the directory and emits nothing into it.
\<close>

theorem run_removes_dest_counterexample:
  "run example_host example_config None []
     = ([], Returned \<lparr>success = True, hasError = False, importMap = Some [], newLockfile = None\<rparr>)
   \<and> run example_host (example_config\<lparr>externalPackage := [''react'']\<rparr>) None
       [createInstallTarget ''react'' True]
     = ([Rimraf ''/app/web_modules''],
        Returned \<lparr>success = True, hasError = False, importMap = Some [], newLockfile = None\<rparr>)"
  using ex_run_external by (simp add: run_def)

subsection \<open>The resolution cascade\<close>

lemma first_selected_Cons:
  "first_selected (v # vs) = (if truthy v then v else first_selected vs)"
  by (simp add: first_selected_def)

lemma first_selected_Nil: "first_selected [] = None"
  by (simp add: first_selected_def)

lemma probe_spec:
  "truthy (probeEntrypointObject h b dep) \<Longrightarrow>
     probeEntrypointObject h b dep
       = first_selected (map (lookup h b) [dep, ''./index.js'', ''./index'', ''./'', ''.''])"
  "\<not> truthy (probeEntrypointObject h b dep) \<Longrightarrow>
     first_selected (map (lookup h b) [dep, ''./index.js'', ''./index'', ''./'', ''.'']) = None"
  by (auto simp: probeEntrypointObject_def or_js_def first_selected_Cons first_selected_Nil
           split: if_splits)

lemma findEntrypoint_after_probe:
  "(let found2 = (if \<not> truthy found1 then mainv else found1);
        isImplicitEntrypoint = (\<not> truthy found2);
        found3 = (if isImplicitEntrypoint then Some (JStr ''index.js'') else found2)
    in case found3 of
         Some (JStr s) \<Rightarrow> Inr (s, isImplicitEntrypoint)
       | _ \<Rightarrow> Inl (UnexpectedEntrypoint dep found3))
   = entry_of dep (first_selected [found1, mainv])"
  by (auto simp: Let_def first_selected_Cons first_selected_Nil entry_of_def
           split: option.splits json.splits)

lemma findEntrypoint_spec:
  assumes "\<not> is_object (get m ''browser:module'')"
    and "\<not> is_object (get m ''module'')"
    and "\<not> is_object (get m ''main:esnext'')"
  shows "findEntrypoint h m dep =
           (if browser_is_null m then Inl TypeError
            else entry_of dep (spec_select_entry h m dep))"
proof -
  let ?bm = "get m ''browser:module''" and ?mo = "get m ''module''"
  let ?es = "get m ''main:esnext''" and ?br = "get m ''browser''" and ?ma = "get m ''main''"
  let ?found0 = "or_js (or_js (or_js ?bm ?mo) ?es) ?br"
  let ?probed = "if typeof ?found0 = TObject
               then (case ?found0 of
                       Some JNull \<Rightarrow> Inl TypeError
                     | Some obj \<Rightarrow> Inr (probeEntrypointObject h obj dep)
                     | None \<Rightarrow> Inr None)
               else Inr ?found0"
  have fe: "findEntrypoint h m dep =
      (case ?probed of Inl e \<Rightarrow> Inl e
       | Inr found1 \<Rightarrow> entry_of dep (first_selected [found1, ?ma]))"
    unfolding findEntrypoint_def Let_def findEntrypoint_after_probe[unfolded Let_def] ..
  show ?thesis
  proof (cases "truthy ?bm \<or> truthy ?mo \<or> truthy ?es")
    case True
    then have t0: "truthy ?found0"
      by (auto simp: or_js_def)
    from True assms have "typeof ?found0 \<noteq> TObject"
      by (auto simp: or_js_def is_object_def)
    then have "?probed = Inr ?found0" by simp
    with fe t0 have "findEntrypoint h m dep = entry_of dep ?found0"
      by (simp add: first_selected_Cons)
    moreover from True have "spec_select_entry h m dep = ?found0"
      by (auto simp: spec_select_entry_def or_js_def first_selected_Cons)
    moreover from True have "\<not> browser_is_null m"
      by (auto simp: browser_is_null_def)
    ultimately show ?thesis by simp
  next
    case False
    then have f0: "?found0 = ?br" by (simp add: or_js_def)
    from False have sel:
      "spec_select_entry h m dep = first_selected [spec_browser_entry h m dep, ?ma]"
      by (simp add: spec_select_entry_def first_selected_Cons)
    from False have nul: "browser_is_null m = (?br = Some JNull)"
      by (simp add: browser_is_null_def)
    show ?thesis
    proof (cases "?br = Some JNull")
      case True
      then have "?probed = Inl TypeError" unfolding f0 by simp
      with fe nul True show ?thesis by simp
    next
      case nonnull: False
      show ?thesis
      proof (cases "typeof ?br = TObject")
        case obj: True
        with nonnull obtain b where b: "?br = Some b" and nb: "b \<noteq> JNull"
          by (cases ?br) auto
        from obj b nb have p: "?probed = Inr (probeEntrypointObject h b dep)"
          unfolding f0 by (cases b) simp_all
        from obj b nb have "is_object (Some b)"
          by (cases b) (simp_all add: is_object_def)
        with b have sb: "spec_browser_entry h m dep =
            first_selected (map (lookup h b) [dep, ''./index.js'', ''./index'', ''./'', ''.''])"
          by (simp add: spec_browser_entry_def)
        have "first_selected [probeEntrypointObject h b dep, ?ma]
                = first_selected [spec_browser_entry h m dep, ?ma]"
        proof (cases "truthy (probeEntrypointObject h b dep)")
          case True
          from probe_spec(1)[OF True] sb show ?thesis by simp
        next
          case False
          from probe_spec(2)[OF False] sb False show ?thesis
            by (simp add: first_selected_Cons)
        qed
        with fe p sel nul nonnull show ?thesis by simp
      next
        case nobj: False
        then have p: "?probed = Inr ?br" unfolding f0 by simp
        from nobj have "spec_browser_entry h m dep = ?br"
          by (cases ?br) (auto simp: spec_browser_entry_def is_object_def)
        with fe p sel nul nonnull show ?thesis by simp
      qed
    qed
  qed
qed

lemma opt_get_truthy: "truthy (Some v) \<Longrightarrow> opt_get (Some v) k = get v k"
  by (cases v) simp_all

lemma resolveManifestEntry_spec:
  assumes "manifestLoc \<noteq> []"
    and "checkReactWorkaround m = None"
    and "\<not> is_object (get m ''browser:module'')"
    and "\<not> is_object (get m ''module'')"
    and "\<not> is_object (get m ''main:esnext'')"
  shows "resolveManifestEntry h dep (Some manifestLoc) m =
     (if browser_is_null m then Inl TypeError
      else case spec_select_entry h m dep of
        None \<Rightarrow>
          (case requireResolve h (pathJoin h [manifestLoc, ''..'', ''index.js'']) of
             Some l \<Rightarrow> Inr \<lparr>type = JS, loc = l\<rparr>
           | None \<Rightarrow>
               (if truthy (get m ''types'') \<or> truthy (get m ''typings'')
                then Inr \<lparr>type = IGNORE, loc = []\<rparr>
                else Inl (ModuleNotFound (pathJoin h [manifestLoc, ''..'', ''index.js'']))))
      | Some (JStr s) \<Rightarrow>
          (case requireResolve h (pathJoin h [manifestLoc, ''..'', s]) of
             Some l \<Rightarrow> Inr \<lparr>type = JS, loc = l\<rparr>
           | None \<Rightarrow> Inl (ModuleNotFound (pathJoin h [manifestLoc, ''..'', s])))
      | Some v \<Rightarrow> Inl (UnexpectedEntrypoint dep (Some v)))"
  unfolding resolveManifestEntry_def findEntrypoint_spec[OF assms(3-5)]
  using assms(1,2)
  by (auto simp: entry_of_def Let_def split: option.splits json.splits)

text \<open>
  C2, as the code has it. Take a specifier that is no direct file reference, for which
  the export-map step does not apply (no subpath, or the package's manifest is not
  found or has no \<^verbatim>\<open>exports\<close>), whose own manifest is found with a name that is falsy or a
  string beginning with neither \<^verbatim>\<open>@reactesm\<close> nor \<^verbatim>\<open>@pika/react\<close>, and whose fields
  \<^verbatim>\<open>browser:module\<close>, \<^verbatim>\<open>module\<close>, \<^verbatim>\<open>main:esnext\<close> are no objects or arrays. The resolver
  selects the entry point by the specified priority; a \<^verbatim>\<open>browser\<close> object is probed with
  the specified keys, where a key is also found when the object inherits it (the
  specifier \<^verbatim>\<open>constructor\<close> finds a function). When nothing is selected before it and
  \<^verbatim>\<open>browser\<close> is null, the probe is a type error. A selected string is resolved next to
  the manifest and gives a script or the resolution error; another selected value is
  an error; when nothing is selected the implicit \<^verbatim>\<open>index.js\<close> is resolved, and if that
  fails the result is Ignore when the manifest carries \<^verbatim>\<open>types\<close> or \<^verbatim>\<open>typings\<close>, the
  resolution error otherwise.
\<close>

theorem manifest_entry_priority:
  assumes "\<not> isDirectFile h dep"
    and "resolveExportMap h dep = None"
    and "resolveDependencyManifest h dep = (Some manifestLoc, Some m)"
    and "manifestLoc \<noteq> []" and "truthy (Some m)"
    and "checkReactWorkaround m = None"
    and "\<not> is_object (get m ''browser:module'')"
    and "\<not> is_object (get m ''module'')"
    and "\<not> is_object (get m ''main:esnext'')"
  shows "resolveWebDependency h dep =
     (if browser_is_null m then Inl TypeError
      else case spec_select_entry h m dep of
        None \<Rightarrow>
          (case requireResolve h (pathJoin h [manifestLoc, ''..'', ''index.js'']) of
             Some l \<Rightarrow> Inr \<lparr>type = JS, loc = l\<rparr>
           | None \<Rightarrow>
               (if truthy (get m ''types'') \<or> truthy (get m ''typings'')
                then Inr \<lparr>type = IGNORE, loc = []\<rparr>
                else Inl (ModuleNotFound (pathJoin h [manifestLoc, ''..'', ''index.js'']))))
      | Some (JStr s) \<Rightarrow>
          (case requireResolve h (pathJoin h [manifestLoc, ''..'', s]) of
             Some l \<Rightarrow> Inr \<lparr>type = JS, loc = l\<rparr>
           | None \<Rightarrow> Inl (ModuleNotFound (pathJoin h [manifestLoc, ''..'', s])))
      | Some v \<Rightarrow> Inl (UnexpectedEntrypoint dep (Some v)))"
proof -
  from assms(1-5) have
    "resolveWebDependency h dep = resolveManifestEntry h dep (Some manifestLoc) m"
    by (simp add: resolveWebDependency_def resolveManifestOrFile_def)
  with resolveManifestEntry_spec[OF assms(4,6-9)] show ?thesis by simp
qed

lemmas sel_defs = isDirectFile_def resolveExportMap_def checkReactWorkaround_def
  spec_select_entry_def spec_browser_entry_def first_selected_def is_object_def
  browser_is_null_def lookup_def inherited_def object_prototype_keys_def

theorem manifest_entry_priority_witness:
  "resolveWebDependency example_host ''preact''
     = Inr \<lparr>type = JS, loc = ''/app/node_modules/preact/dist/preact.module.js''\<rparr>
   \<and> resolveWebDependency example_host ''widget''
     = Inr \<lparr>type = JS, loc = ''/app/node_modules/widget/browser.js''\<rparr>
   \<and> resolveWebDependency example_host ''csstype'' = Inr \<lparr>type = IGNORE, loc = []\<rparr>
   \<and> resolveWebDependency example_host ''constructor''
     = Inl (UnexpectedEntrypoint ''constructor'' (Some (JNative ''constructor'')))
   \<and> resolveWebDependency example_host ''nobrowser'' = Inl TypeError"
proof -
  let ?p = "JObj [(''name'', JStr ''preact''), (''module'', JStr ''dist/preact.module.js''),
                  (''main'', JStr ''dist/preact.js'')]"
  let ?w = "JObj [(''name'', JStr ''widget''),
                  (''browser'', JObj [(''./index.js'', JStr ''./browser.js'')]),
                  (''main'', JStr ''index.js'')]"
  let ?c = "JObj [(''name'', JStr ''csstype''), (''types'', JStr ''index.d.ts'')]"
  let ?k = "JObj [(''name'', JStr ''constructor''),
                  (''browser'', JObj [(''./lib/node.js'', JStr ''./lib/browser.js'')]),
                  (''main'', JStr ''index.js'')]"
  let ?n = "JObj [(''name'', JStr ''nobrowser''), (''browser'', JNull),
                  (''main'', JStr ''index.js'')]"
  have p: "resolveWebDependency example_host ''preact''
     = Inr \<lparr>type = JS, loc = ''/app/node_modules/preact/dist/preact.module.js''\<rparr>"
    using manifest_entry_priority[of example_host "''preact''"
            "''/app/node_modules/preact/package.json''" ?p]
    by (simp add: ex_defs sel_defs)
  have w: "resolveWebDependency example_host ''widget''
     = Inr \<lparr>type = JS, loc = ''/app/node_modules/widget/browser.js''\<rparr>"
    using manifest_entry_priority[of example_host "''widget''"
            "''/app/node_modules/widget/package.json''" ?w]
    by (simp add: ex_defs sel_defs)
  have c: "resolveWebDependency example_host ''csstype'' = Inr \<lparr>type = IGNORE, loc = []\<rparr>"
    using manifest_entry_priority[of example_host "''csstype''"
            "''/app/node_modules/csstype/package.json''" ?c]
    by (simp add: ex_defs sel_defs)
  have k: "resolveWebDependency example_host ''constructor''
     = Inl (UnexpectedEntrypoint ''constructor'' (Some (JNative ''constructor'')))"
    using manifest_entry_priority[of example_host "''constructor''"
            "''/app/node_modules/constructor/package.json''" ?k]
    by (simp add: ex_defs sel_defs)
  have n: "resolveWebDependency example_host ''nobrowser'' = Inl TypeError"
    using manifest_entry_priority[of example_host "''nobrowser''"
            "''/app/node_modules/nobrowser/package.json''" ?n]
    by (simp add: ex_defs sel_defs)
  from p w c k n show ?thesis by simp
qed

text \<open>
  The directory \<^verbatim>\<open>pkg/legacy\<close> has a manifest with a \<^verbatim>\<open>module\<close> entry, and the export map
  of \<^verbatim>\<open>pkg\<close> has no entry for \<^verbatim>\<open>./legacy\<close>: the resolver throws instead of selecting
  the entry point.
\<close>

theorem manifest_entry_priority_counterexample:
  "resolveDependencyManifest example_host ''pkg/legacy''
     = (Some ''/app/node_modules/pkg/legacy/package.json'',
        Some (JObj [(''module'', JStr ''index.mjs'')]))
   \<and> opt_get (opt_get (snd (resolveDependencyManifest example_host ''pkg'')) ''exports'')
         ''./legacy'' = None
   \<and> resolveWebDependency example_host ''pkg/legacy''
     = Inl (ExportsEntryMissing ''pkg'' ''legacy'')"
  by (simp add: ex_defs res_defs)

lemma array_index_condition [simp]:
  "array_index ''browser'' = None" "array_index ''import'' = None"
  "array_index ''default'' = None" "array_index ''require'' = None"
  by (simp_all add: array_index_def is_digit_def)

lemma exportMapValue_spec:
  "(case exportMapValue (Some entry) of Some (JStr s) \<Rightarrow> A s | _ \<Rightarrow> B)
     = (case spec_export_value entry of Some (JStr s) \<Rightarrow> A s | _ \<Rightarrow> B)"
proof (cases entry)
  case (JObj kvs)
  then show ?thesis
    by (auto simp: exportMapValue_def spec_export_value_def or_js_def first_selected_Cons
          first_selected_Nil)
qed (simp_all add: exportMapValue_def spec_export_value_def or_js_def)

text \<open>
  C3: for a specifier \<^verbatim>\<open>packageName/subpath\<close> that reaches the export-map step of the
  cascade (it is no direct file reference, which the step before answers), where the
  manifest of \<^verbatim>\<open>packageName\<close> is found and its \<^verbatim>\<open>exports\<close> has the key \<^verbatim>\<open>"./" + subpath\<close>, the
  resolver takes the value of the entry under the priority \<^verbatim>\<open>browser\<close>, \<^verbatim>\<open>import\<close>,
  \<^verbatim>\<open>default\<close>, \<^verbatim>\<open>require\<close>; a string gives a script at that path next to the manifest,
  anything else the error.
\<close>

theorem export_map_entry:
  assumes "\<not> isDirectFile h dep"
    and "parsePackageImportSpecifier h dep = (packageName, subpath)" and "subpath \<noteq> []"
    and "resolveDependencyManifest h packageName = (Some manifestLoc, Some m)"
    and "manifestLoc \<noteq> []" and "truthy (Some m)"
    and "get m ''exports'' = Some exports" and "truthy (Some exports)"
    and "get exports (''./'' @ subpath) = Some entry"
  shows "resolveWebDependency h dep =
     (case spec_export_value entry of
        Some (JStr v) \<Rightarrow> Inr \<lparr>type = JS, loc = pathJoin h [manifestLoc, ''..'', v]\<rparr>
      | _ \<Rightarrow> Inl (ExportsEntryMissing packageName subpath))"
proof -
  from assms(6,7) have e1: "opt_get (Some m) ''exports'' = Some exports"
    by (simp add: opt_get_truthy)
  from assms(8,9) have e2: "opt_get (Some exports) (''./'' @ subpath) = Some entry"
    by (simp add: opt_get_truthy)
  have "resolveExportMap h dep =
      Some (case exportMapValue (Some entry) of
              Some (JStr v) \<Rightarrow> Inr \<lparr>type = JS, loc = pathJoin h [manifestLoc, ''..'', v]\<rparr>
            | _ \<Rightarrow> Inl (ExportsEntryMissing packageName subpath))"
    using assms(2-6,8) e1 e2
    by (simp add: resolveExportMap_def Let_def del: opt_get.simps append.simps
             split: option.splits json.splits)
  then show ?thesis
    using assms(1) by (simp add: resolveWebDependency_def exportMapValue_spec)
qed

theorem export_map_entry_witness:
  "resolveWebDependency example_host ''pkg/feature''
     = Inr \<lparr>type = JS, loc = ''/app/node_modules/pkg/esm/feature.js''\<rparr>"
  using export_map_entry[of example_host "''pkg/feature''" "''pkg''" "''feature''"
          "''/app/node_modules/pkg/package.json''"
          "JObj [(''name'', JStr ''pkg''),
                 (''exports'', JObj [(''./feature'', JObj [(''import'', JStr ''./esm/feature.js''),
                                                          (''require'', JStr ''./cjs/feature.js'')]),
                                     (''./styles.css'', JStr ''./dist/styles.css'')])]"
          "JObj [(''./feature'', JObj [(''import'', JStr ''./esm/feature.js''),
                                       (''require'', JStr ''./cjs/feature.js'')]),
                 (''./styles.css'', JStr ''./dist/styles.css'')]"
          "JObj [(''import'', JStr ''./esm/feature.js''), (''require'', JStr ''./cjs/feature.js'')]"]
  by (simp add: ex_defs isDirectFile_def spec_export_value_def first_selected_def)

subsection \<open>Dynamic imports\<close>

lemma quote_not_space: "is_quote c \<Longrightarrow> \<not> is_js_space c"
  by (auto simp: is_quote_def is_js_space_def)

lemma quote_not_terminator: "is_quote c \<Longrightarrow> \<not> is_line_terminator c"
  by (auto simp: is_quote_def is_line_terminator_def)

lemma find_rev_upt_Some:
  "a < n \<Longrightarrow> P a \<Longrightarrow> (\<forall>j. a < j \<and> j < n \<longrightarrow> \<not> P j) \<Longrightarrow> find P (rev [0..<n]) = Some a"
proof (induction n)
  case 0
  then show ?case by simp
next
  case (Suc n)
  show ?case
  proof (cases "a = n")
    case True
    with Suc.prems show ?thesis by simp
  next
    case False
    with Suc.prems have "a < n" and "\<not> P n" by auto
    with Suc show ?thesis by simp
  qed
qed

lemma find_rev_upt_None:
  "(\<forall>j < n. \<not> P j) \<Longrightarrow> find P (rev [0..<n]) = None"
  by (induction n) auto

lemma match_at_no_quote:
  assumes "\<not> list_ex is_quote str"
  shows "match_at str = None"
proof (cases "dropWhile is_js_space str")
  case Nil
  show ?thesis unfolding match_at_def Nil by simp
next
  case (Cons q rest)
  then have "q \<in> set (dropWhile is_js_space str)" by simp
  then have "q \<in> set str" by (rule set_dropWhileD)
  with assms have "\<not> is_quote q" by (auto simp: list_ex_iff)
  then show ?thesis unfolding match_at_def Cons by simp
qed

lemma match_string_literal_no_quote:
  assumes "\<not> list_ex is_quote str"
  shows "match_string_literal str = None"
proof -
  have "match_at (drop p str) = None" for p
  proof (rule match_at_no_quote)
    from assms show "\<not> list_ex is_quote (drop p str)"
      by (auto simp: list_ex_iff dest: in_set_dropD)
  qed
  then have "List.map_filter (\<lambda>p. match_at (drop p str)) (line_starts str) = []"
    by (simp add: List.map_filter_def)
  then show ?thesis by (simp add: match_string_literal_def)
qed

lemma spaces_not_quote:
  "list_all is_js_space S \<Longrightarrow> length R \<le> j \<Longrightarrow> j < length (R @ S) \<Longrightarrow> \<not> is_quote ((R @ S) ! j)"
proof -
  assume S: "list_all is_js_space S" and "length R \<le> j" and "j < length (R @ S)"
  then have "(R @ S) ! j = S ! (j - length R)" and "j - length R < length S"
    by (auto simp: nth_append)
  with S have "is_js_space ((R @ S) ! j)" by (simp add: list_all_length)
  then show ?thesis using quote_not_space by blast
qed

lemma takeWhile_spaces: "list_all is_js_space r \<Longrightarrow> takeWhile is_js_space r = r"
  by (simp add: list_all_iff)

lemma trailing_ok_spaces: "list_all is_js_space r \<Longrightarrow> trailing_ok r"
  by (simp add: trailing_ok_def Let_def takeWhile_spaces)

text \<open>A quoted text with white space around it, on any number of lines.\<close>

lemma match_at_literal:
  assumes ws: "list_all is_js_space ws" and ws': "list_all is_js_space ws'"
    and q: "is_quote q" and q': "is_quote q'"
    and body: "\<not> list_ex is_line_terminator body"
  shows "match_at (ws @ q # body @ q' # ws') = Some body"
proof -
  let ?rest = "(body @ [q']) @ ws'"
  let ?line = "takeWhile (\<lambda>c. \<not> is_line_terminator c) ?rest"
  let ?ok = "\<lambda>j. j < length ?rest \<and> is_quote (?rest ! j) \<and> trailing_ok (drop (Suc j) ?rest)"
  from ws q have dw: "dropWhile is_js_space (ws @ q # ?rest) = q # ?rest"
    by (simp add: dropWhile_append2 list_all_iff quote_not_space)
  from body q' have "?line = body @ q' # takeWhile (\<lambda>c. \<not> is_line_terminator c) ws'"
    by (simp add: takeWhile_append2 list_ex_iff quote_not_terminator)
  then have len: "length body < Suc (length ?line)" by simp
  from ws' q' have yes: "?ok (length body)"
    by (simp add: trailing_ok_spaces nth_append)
  have no: "\<not> ?ok j" if "length body < j" for j
    using spaces_not_quote[OF ws', of "body @ [q']" j] that by auto
  have "find ?ok (rev [0..<Suc (length ?line)]) = Some (length body)"
    by (rule find_rev_upt_Some[where P = ?ok, OF len yes]) (use no in blast)
  then have "match_at (ws @ q # ?rest) = Some body"
    using q unfolding match_at_def dw by (simp del: upt_Suc append_assoc)
  then show ?thesis by simp
qed

lemma match_string_literal_literal:
  assumes "list_all is_js_space ws" and "list_all is_js_space ws'"
    and "is_quote q" and "is_quote q'" and "\<not> list_ex is_line_terminator body"
  shows "match_string_literal (ws @ q # body @ q' # ws') = Some body"
  using match_at_literal[OF assms]
  by (simp add: match_string_literal_def line_starts_def List.map_filter_simps del: upt_Suc)

text \<open>A text on one line.\<close>

lemma trailing_ok_one_line:
  assumes "\<not> list_ex is_line_terminator r"
  shows "trailing_ok r = list_all is_js_space r"
proof -
  from assms have "\<not> list_ex is_line_terminator (takeWhile is_js_space r)"
    by (auto simp: list_ex_iff dest: set_takeWhileD)
  moreover have "(length (takeWhile is_js_space r) = length r) = list_all is_js_space r"
  proof
    assume "length (takeWhile is_js_space r) = length r"
    with takeWhile_dropWhile_id[of is_js_space r] have "dropWhile is_js_space r = []"
      by (metis append_self_conv length_append add_cancel_right_right length_0_conv)
    then show "list_all is_js_space r"
      by (simp add: list_all_iff)
  next
    assume "list_all is_js_space r"
    then show "length (takeWhile is_js_space r) = length r"
      by (simp add: takeWhile_spaces)
  qed
  ultimately show ?thesis by (simp add: trailing_ok_def Let_def)
qed

lemma trailing_split:
  "\<exists>R S. rest = R @ S \<and> list_all is_js_space S \<and> (R = [] \<or> \<not> is_js_space (last R))
         \<and> rev (dropWhile is_js_space (rev rest)) = R"
proof (intro exI conjI)
  show "rest = rev (dropWhile is_js_space (rev rest)) @ rev (takeWhile is_js_space (rev rest))"
    by (metis rev_append rev_rev_ident takeWhile_dropWhile_id)
  show "list_all is_js_space (rev (takeWhile is_js_space (rev rest)))"
    by (auto simp: list_all_iff dest: set_takeWhileD)
  show "rev (dropWhile is_js_space (rev rest)) = []
        \<or> \<not> is_js_space (last (rev (dropWhile is_js_space (rev rest))))"
  proof (cases "dropWhile is_js_space (rev rest) = []")
    case True
    then show ?thesis by simp
  next
    case False
    then have "\<not> is_js_space (hd (dropWhile is_js_space (rev rest)))"
      by (rule hd_dropWhile)
    with False show ?thesis by (simp add: last_rev)
  qed
  show "rev (dropWhile is_js_space (rev rest)) = rev (dropWhile is_js_space (rev rest))" ..
qed

lemma match_at_one_line:
  assumes one: "\<not> list_ex is_line_terminator str"
  shows "match_at str = (if quoted (trim str) then Some (butlast (tl (trim str))) else None)"
proof (cases "dropWhile is_js_space str")
  case Nil
  have "trim str = []" unfolding trim_def Nil by simp
  then show ?thesis unfolding match_at_def Nil by (simp add: quoted_def)
next
  case (Cons q rest)
  from trailing_split[of rest] obtain R S where split: "rest = R @ S"
    and S: "list_all is_js_space S" and lastR: "R = [] \<or> \<not> is_js_space (last R)"
    and R: "rev (dropWhile is_js_space (rev rest)) = R"
    by blast
  let ?ok = "\<lambda>j. j < length (R @ S) \<and> is_quote ((R @ S) ! j)
                   \<and> trailing_ok (drop (Suc j) (R @ S))"
  from Cons have nq: "\<not> is_js_space q"
    by (metis hd_dropWhile list.sel(1) list.distinct(1))
  have "dropWhile is_js_space (rev rest @ [q]) = dropWhile is_js_space (rev rest) @ [q]"
    using nq by (simp add: dropWhile_append)
  then have tr: "trim str = q # R"
    unfolding trim_def Cons using R by simp
  have "set rest \<subseteq> set str"
  proof
    fix x assume "x \<in> set rest"
    then have "x \<in> set (dropWhile is_js_space str)" by (simp add: Cons)
    then show "x \<in> set str" by (rule set_dropWhileD)
  qed
  with one have rest1: "\<not> list_ex is_line_terminator (R @ S)"
    unfolding split by (auto simp: list_ex_iff)
  then have line: "takeWhile (\<lambda>c. \<not> is_line_terminator c) (R @ S) = R @ S"
    by (simp add: list_ex_iff)
  have tail1: "\<not> list_ex is_line_terminator (drop n (R @ S))" for n
    using rest1 by (auto simp: list_ex_iff dest: in_set_dropD)
  from Cons split have dw: "dropWhile is_js_space str = q # R @ S" by simp
  have ma: "match_at str =
      (if is_quote q
       then (case find ?ok (rev [0..<Suc (length (R @ S))]) of
               Some j \<Rightarrow> Some (take j (R @ S)) | None \<Rightarrow> None)
       else None)"
    by (simp add: match_at_def dw line del: upt_Suc)
  show ?thesis
  proof (cases "is_quote q")
    case False
    then show ?thesis unfolding ma tr by (simp add: quoted_def)
  next
    case qq: True
    show ?thesis
    proof (cases "R \<noteq> [] \<and> is_quote (last R)")
      case True
      then have Rne: "R \<noteq> []" and lq: "is_quote (last R)" by auto
      let ?j = "length R - 1"
      from Rne have jR: "?j < length R" by simp
      then have jlt: "?j < Suc (length (R @ S))" by simp
      from jR have nth: "(R @ S) ! ?j = last R"
        using Rne by (simp add: nth_append last_conv_nth)
      from Rne have dr: "drop (Suc ?j) (R @ S) = S" by simp
      have yes: "?ok ?j"
        using jR nth lq dr trailing_ok_spaces[OF S] by simp
      have no: "\<not> ?ok j" if "?j < j" for j
      proof -
        from that jR have "length R \<le> j" by simp
        with spaces_not_quote[OF S, of R j] show ?thesis by auto
      qed
      have "find ?ok (rev [0..<Suc (length (R @ S))]) = Some ?j"
        by (rule find_rev_upt_Some[where P = ?ok, OF jlt yes]) (use no in blast)
      moreover from Rne have "take ?j (R @ S) = butlast R"
        by (simp add: butlast_conv_take)
      moreover from True qq have "quoted (q # R)"
        by (cases R) (simp_all add: quoted_def)
      ultimately show ?thesis
        using qq unfolding ma tr by simp
    next
      case False
      have "\<not> ?ok j" for j
      proof
        assume ok: "?ok j"
        then have jl: "j < length (R @ S)" and jq: "is_quote ((R @ S) ! j)"
          and t: "trailing_ok (drop (Suc j) (R @ S))" by auto
        from t trailing_ok_one_line[OF tail1[of "Suc j"]]
        have sp: "list_all is_js_space (drop (Suc j) (R @ S))" by simp
        have jR: "j < length R"
        proof (rule ccontr)
          assume "\<not> j < length R"
          then have "length R \<le> j" by simp
          from spaces_not_quote[OF S this jl] jq show False by simp
        qed
        then have Rne: "R \<noteq> []" by auto
        have "j = length R - 1"
        proof (rule ccontr)
          assume "j \<noteq> length R - 1"
          with jR have lt: "Suc j < length R" by simp
          then have "last (drop (Suc j) R) = last R" and "drop (Suc j) R \<noteq> []"
            by (simp_all add: last_drop)
          then have "last R \<in> set (drop (Suc j) R)"
            by (metis last_in_set)
          with sp have "is_js_space (last R)" by (simp add: list_all_iff)
          with lastR Rne show False by simp
        qed
        with jR Rne have "(R @ S) ! j = last R"
          by (simp add: nth_append last_conv_nth)
        with jq Rne False show False by simp
      qed
      then have "find ?ok (rev [0..<Suc (length (R @ S))]) = None"
        by (intro find_rev_upt_None) blast
      moreover from False have "\<not> quoted (q # R)"
        by (auto simp: quoted_def)
      ultimately show ?thesis
        using qq unfolding ma tr by simp
    qed
  qed
qed

lemma match_string_literal_one_line:
  assumes "\<not> list_ex is_line_terminator str"
  shows "match_string_literal str
           = (if quoted (trim str) then Some (butlast (tl (trim str))) else None)"
proof -
  from assms have "filter (\<lambda>p. is_line_terminator (str ! p)) [0..<length str] = []"
    by (auto simp: filter_empty_conv list_ex_iff)
  then have "line_starts str = [0]" by (simp add: line_starts_def)
  then show ?thesis
    using match_at_one_line[OF assms]
    by (simp add: match_string_literal_def List.map_filter_simps)
qed

text \<open>
  C6, as the code has it: \<^verbatim>\<open>import.meta\<close> (\<^verbatim>\<open>d = -2\<close>) never gives a specifier. For a dynamic
  import (\<^verbatim>\<open>d >= 0\<close>) whose argument is a quoted string (single or double quotes, the
  text between them on one line, white space around them allowed), the specifier is the
  text between the quotes. An argument on one line is accepted exactly when, the white
  space around it apart, it begins with a quote character and ends with another one,
  and the specifier is what is between the two; so a template literal and every other
  form of argument on one line gives none, but for an expression that itself begins and
  ends with a quote. An argument with no quote character in it gives none, on however
  many lines.
\<close>

theorem dynamic_import_specifier:
  "(imp_d imp = - 2 \<longrightarrow> getWebModuleSpecifierFromCode code imp = None)
   \<and> (0 \<le> imp_d imp \<and> substring code (imp_s imp) (imp_e imp) = ws @ q # body @ q' # ws'
        \<and> list_all is_js_space ws \<and> list_all is_js_space ws'
        \<and> is_quote q \<and> is_quote q' \<and> \<not> list_ex is_line_terminator body
      \<longrightarrow> getWebModuleSpecifierFromCode code imp = Some body)
   \<and> (0 \<le> imp_d imp \<and> \<not> list_ex is_line_terminator (substring code (imp_s imp) (imp_e imp))
      \<longrightarrow> getWebModuleSpecifierFromCode code imp =
            (if quoted (trim (substring code (imp_s imp) (imp_e imp)))
             then Some (butlast (tl (trim (substring code (imp_s imp) (imp_e imp)))))
             else None))
   \<and> (0 \<le> imp_d imp \<and> \<not> list_ex is_quote (substring code (imp_s imp) (imp_e imp))
      \<longrightarrow> getWebModuleSpecifierFromCode code imp = None)"
  by (auto simp: getWebModuleSpecifierFromCode_def match_string_literal_literal
        match_string_literal_one_line match_string_literal_no_quote)

lemma ex_dynamic_quoted:
  "substring (''import( '' @ [CHR 0x27] @ ''react'' @ [CHR 0x27] @ '' )'') 7 16
     = '' '' @ CHR 0x27 # ''react'' @ CHR 0x27 # '' ''"
  by (simp add: substring_def)

lemma ex_dynamic_concat:
  "substring (''import(base + '' @ [CHR 0x27] @ ''/x.js'' @ [CHR 0x27] @ '')'') 7 21
     = ''base + '' @ [CHR 0x27] @ ''/x.js'' @ [CHR 0x27]"
  by (simp add: substring_def)

lemma ex_dynamic_slip:
  "substring (''import('' @ [CHR 0x27] @ ''a'' @ [CHR 0x27] @ '' + b + '' @ [CHR 0x27] @ ''c''
                @ [CHR 0x27] @ '')'') 7 20
     = [CHR 0x27] @ ''a'' @ [CHR 0x27] @ '' + b + '' @ [CHR 0x27] @ ''c'' @ [CHR 0x27]"
  by (simp add: substring_def)

theorem dynamic_import_specifier_witness:
  "getWebModuleSpecifierFromCode (''import( '' @ [CHR 0x27] @ ''react'' @ [CHR 0x27] @ '' )'')
     \<lparr>imp_s = 7, imp_e = 16, imp_ss = 0, imp_se = 17, imp_d = 0\<rparr> = Some ''react''
   \<and> getWebModuleSpecifierFromCode
       (''import(base + '' @ [CHR 0x27] @ ''/x.js'' @ [CHR 0x27] @ '')'')
       \<lparr>imp_s = 7, imp_e = 21, imp_ss = 0, imp_se = 22, imp_d = 0\<rparr> = None
   \<and> getWebModuleSpecifierFromCode
       (''import('' @ [CHR 0x27] @ ''a'' @ [CHR 0x27] @ '' + b + '' @ [CHR 0x27] @ ''c''
          @ [CHR 0x27] @ '')'')
       \<lparr>imp_s = 7, imp_e = 20, imp_ss = 0, imp_se = 21, imp_d = 0\<rparr>
     = Some (''a'' @ [CHR 0x27] @ '' + b + '' @ [CHR 0x27] @ ''c'')
   \<and> getWebModuleSpecifierFromCode ''import(specifier)''
       \<lparr>imp_s = 7, imp_e = 16, imp_ss = 0, imp_se = 17, imp_d = 0\<rparr> = None
   \<and> getWebModuleSpecifierFromCode ''import.meta.url''
       \<lparr>imp_s = 0, imp_e = 11, imp_ss = 0, imp_se = 11, imp_d = - 2\<rparr> = None"
proof -
  let ?quoted = "''import( '' @ [CHR 0x27] @ ''react'' @ [CHR 0x27] @ '' )''"
  let ?concat = "''import(base + '' @ [CHR 0x27] @ ''/x.js'' @ [CHR 0x27] @ '')''"
  let ?slip = "''import('' @ [CHR 0x27] @ ''a'' @ [CHR 0x27] @ '' + b + '' @ [CHR 0x27] @ ''c''
                 @ [CHR 0x27] @ '')''"
  let ?i1 = "\<lparr>imp_s = 7, imp_e = 16, imp_ss = 0, imp_se = 17, imp_d = 0\<rparr>"
  let ?i2 = "\<lparr>imp_s = 7, imp_e = 21, imp_ss = 0, imp_se = 22, imp_d = 0\<rparr>"
  let ?i3 = "\<lparr>imp_s = 7, imp_e = 20, imp_ss = 0, imp_se = 21, imp_d = 0\<rparr>"
  let ?i4 = "\<lparr>imp_s = 7, imp_e = 16, imp_ss = 0, imp_se = 17, imp_d = 0\<rparr>"
  let ?i5 = "\<lparr>imp_s = 0, imp_e = 11, imp_ss = 0, imp_se = 11, imp_d = - 2\<rparr>"
  have a: "getWebModuleSpecifierFromCode ?quoted ?i1 = Some ''react''"
    using dynamic_import_specifier[of ?i1 ?quoted "'' ''" "CHR 0x27" "''react''" "CHR 0x27" "'' ''"]
      ex_dynamic_quoted
    by (simp add: is_quote_def is_line_terminator_def is_js_space_def)
  have b: "getWebModuleSpecifierFromCode ?concat ?i2 = None"
    using dynamic_import_specifier[of ?i2 ?concat] ex_dynamic_concat
    by (simp add: is_quote_def is_line_terminator_def is_js_space_def trim_def quoted_def)
  have c: "getWebModuleSpecifierFromCode ?slip ?i3
             = Some (''a'' @ [CHR 0x27] @ '' + b + '' @ [CHR 0x27] @ ''c'')"
    using dynamic_import_specifier[of ?i3 ?slip] ex_dynamic_slip
    by (simp add: is_quote_def is_line_terminator_def is_js_space_def trim_def quoted_def)
  have d: "getWebModuleSpecifierFromCode ''import(specifier)'' ?i4 = None"
    using dynamic_import_specifier[of ?i4 "''import(specifier)''"]
    by (simp add: substring_def is_quote_def)
  have e: "getWebModuleSpecifierFromCode ''import.meta.url'' ?i5 = None"
    using dynamic_import_specifier[of ?i5 "''import.meta.url''"]
    by simp
  from a b c d e show ?thesis by simp
qed

text \<open>The argument is a template literal without interpolation, and it is dropped.\<close>

theorem dynamic_import_template_counterexample:
  "substring ''import(`react`)'' 7 14 = ''`react`''
   \<and> getWebModuleSpecifierFromCode ''import(`react`)''
       \<lparr>imp_s = 7, imp_e = 14, imp_ss = 0, imp_se = 15, imp_d = 0\<rparr> = None"
proof -
  have sub: "substring ''import(`react`)'' 7 14 = ''`react`''"
    by (simp add: substring_def)
  have "\<not> list_ex is_quote ''`react`''"
    by (simp add: is_quote_def)
  then have "match_string_literal ''`react`'' = None"
    by (rule match_string_literal_no_quote)
  with sub show ?thesis
    by (simp add: getWebModuleSpecifierFromCode_def)
qed

subsection \<open>Aggregating targets\<close>

lemma mset_insert_by: "mset (insert_by compare x ys) = add_mset x (mset ys)"
  by (induction ys) auto

lemma mset_sort_by: "mset (sort_by compare xs) = mset xs"
  by (induction xs) (auto simp: sort_by_def mset_insert_by)

lemma set_insert_by: "set (insert_by compare x ys) = insert x (set ys)"
  by (induction ys) auto

lemma sorted_insert_by:
  assumes total: "\<forall>a b. compare a b \<le> 0 \<or> compare b a \<le> 0"
    and trans: "\<forall>a b c. compare a b \<le> 0 \<and> compare b c \<le> 0 \<longrightarrow> compare a c \<le> 0"
  shows "sorted_wrt (\<lambda>a b. compare a b \<le> 0) ys
           \<Longrightarrow> sorted_wrt (\<lambda>a b. compare a b \<le> 0) (insert_by compare x ys)"
proof (induction ys)
  case Nil
  then show ?case by simp
next
  case (Cons y ys)
  from Cons.prems have tail: "sorted_wrt (\<lambda>a b. compare a b \<le> 0) ys"
    and head: "\<forall>z \<in> set ys. compare y z \<le> 0"
    by simp_all
  show ?case
  proof (cases "compare x y \<le> 0")
    case True
    have "compare x z \<le> 0" if "z \<in> set ys" for z
    proof -
      from head that have "compare y z \<le> 0" by blast
      with True trans show ?thesis by blast
    qed
    with True Cons.prems show ?thesis by simp
  next
    case False
    with total have yx: "compare y x \<le> 0" by blast
    from Cons.IH[OF tail] have "sorted_wrt (\<lambda>a b. compare a b \<le> 0) (insert_by compare x ys)" .
    moreover from yx head have "\<forall>z \<in> set (insert_by compare x ys). compare y z \<le> 0"
      by (simp add: set_insert_by)
    ultimately show ?thesis using False by simp
  qed
qed

lemma sorted_sort_by:
  assumes "\<forall>a b. compare a b \<le> 0 \<or> compare b a \<le> 0"
    and "\<forall>a b c. compare a b \<le> 0 \<and> compare b c \<le> 0 \<longrightarrow> compare a c \<le> 0"
  shows "sorted_wrt (\<lambda>a b. compare a b \<le> 0) (sort_by compare xs)"
proof (induction xs)
  case Nil
  show ?case by (simp add: sort_by_def)
next
  case (Cons x xs)
  from sorted_insert_by[OF assms, of "sort_by compare xs" x] Cons show ?case
    by (simp add: sort_by_def)
qed

text \<open>The sort is stable: what compares alike keeps its order.\<close>

lemma filter_insert_by:
  assumes "\<forall>y. P y \<longrightarrow> compare x y \<le> 0"
  shows "filter P (insert_by compare x ys) = (if P x then x # filter P ys else filter P ys)"
proof (induction ys)
  case Nil
  show ?case by simp
next
  case (Cons y ys)
  show ?case
  proof (cases "compare x y \<le> 0")
    case True
    then show ?thesis by simp
  next
    case False
    with assms have "\<not> P y" by blast
    with False Cons show ?thesis by simp
  qed
qed

lemma filter_insert_by_other:
  "\<not> P x \<Longrightarrow> filter P (insert_by compare x ys) = filter P ys"
  by (induction ys) auto

lemma filter_sort_by:
  assumes "\<forall>x y. P x \<and> P y \<longrightarrow> compare x y \<le> 0"
  shows "filter P (sort_by compare xs) = filter P xs"
proof (induction xs)
  case Nil
  show ?case by (simp add: sort_by_def)
next
  case (Cons x xs)
  have step: "sort_by compare (x # xs) = insert_by compare x (sort_by compare xs)"
    by (simp add: sort_by_def)
  show ?case
  proof (cases "P x")
    case True
    with assms have "\<forall>y. P y \<longrightarrow> compare x y \<le> 0" by blast
    from filter_insert_by[where P = P and compare = compare and x = x, OF this] True Cons
    show ?thesis by (simp add: step)
  next
    case False
    with Cons show ?thesis by (simp add: step filter_insert_by_other)
  qed
qed

lemma distinct_fold_js_Set:
  "distinct acc \<Longrightarrow> distinct (fold (\<lambda>x acc. if x \<in> set acc then acc else acc @ [x]) xs acc)"
  by (induction xs arbitrary: acc) auto

lemma sorted_fold_js_Set:
  "sorted (acc @ xs) \<Longrightarrow> sorted (fold (\<lambda>x acc. if x \<in> set acc then acc else acc @ [x]) xs acc)"
proof (induction xs arbitrary: acc)
  case Nil
  then show ?case by simp
next
  case (Cons x xs)
  show ?case
  proof (cases "x \<in> set acc")
    case True
    from Cons.prems have "sorted (acc @ xs)" by (auto simp: sorted_append)
    from Cons.IH[OF this] True show ?thesis by simp
  next
    case False
    from Cons.prems have "sorted ((acc @ [x]) @ xs)" by simp
    from Cons.IH[OF this] False show ?thesis by simp
  qed
qed

lemma distinct_allInstallSpecifiers: "distinct (allInstallSpecifiers h config installTargets)"
  by (simp add: allInstallSpecifiers_def js_Set_def distinct_fold_js_Set)

lemma sorted_allInstallSpecifiers: "sorted (allInstallSpecifiers h config installTargets)"
  by (simp add: allInstallSpecifiers_def js_Set_def sorted_fold_js_Set)

text \<open>
  C5, as the code has it: when every file parses, \<^verbatim>\<open>scanImportsFromFiles\<close> returns every
  target the files give (but those with an alias that is no package alias), each as it
  was found: two targets with the same specifier stay two targets, and no flag is
  merged. The targets are sorted by specifier in the order of \<^verbatim>\<open>localeCompare\<close> (a total
  preorder, as it is on strings), those with the same specifier in the order of the
  scan. What \<^verbatim>\<open>install\<close> derives from the targets is the sorted list, without
  duplicates, of the specifiers of the targets that are not externalized, after alias
  rewriting.
\<close>

theorem aggregator_keeps_targets:
  assumes "parseAll sh h loadedFiles = Inr found"
  shows "(\<exists>targets. scanImportsFromFiles sh h loadedFiles config = Inr targets
            \<and> mset targets =
                mset (filter (\<lambda>target.
                                case findMatchingAliasEntry h config (specifier target) of
                                  None \<Rightarrow> True
                                | Some aliasEntry \<Rightarrow> alias_type aliasEntry = Package)
                             (concat found))
            \<and> ((\<forall>a b. localeCompare sh a b \<le> 0 \<or> localeCompare sh b a \<le> 0)
                 \<and> (\<forall>a b c. localeCompare sh a b \<le> 0 \<and> localeCompare sh b c \<le> 0
                               \<longrightarrow> localeCompare sh a c \<le> 0)
                \<longrightarrow> sorted_wrt (\<lambda>a b. localeCompare sh (specifier a) (specifier b) \<le> 0) targets
                    \<and> (\<forall>s. filter (\<lambda>t. specifier t = s) targets =
                             filter (\<lambda>t. specifier t = s)
                               (filter (\<lambda>target.
                                          case findMatchingAliasEntry h config (specifier target) of
                                            None \<Rightarrow> True
                                          | Some aliasEntry \<Rightarrow> alias_type aliasEntry = Package)
                                       (concat found)))))
         \<and> distinct (allInstallSpecifiers h config installTargets)
         \<and> sorted (allInstallSpecifiers h config installTargets)
         \<and> set (allInstallSpecifiers h config installTargets) =
             set (map (resolveAlias h config) (survivingSpecifiers config installTargets))"
proof -
  let ?cmp = "\<lambda>impA impB. localeCompare sh (specifier impA) (specifier impB)"
  let ?kept = "filter (\<lambda>target.
                         case findMatchingAliasEntry h config (specifier target) of
                           None \<Rightarrow> True
                         | Some aliasEntry \<Rightarrow> alias_type aliasEntry = Package)
                      (concat found)"
  from assms have res: "scanImportsFromFiles sh h loadedFiles config = Inr (sort_by ?cmp ?kept)"
    by (simp add: scanImportsFromFiles_def)
  have m: "mset (sort_by ?cmp ?kept) = mset ?kept"
    by (rule mset_sort_by)
  have s: "sorted_wrt (\<lambda>a b. localeCompare sh (specifier a) (specifier b) \<le> 0)
             (sort_by ?cmp ?kept)
           \<and> (\<forall>s. filter (\<lambda>t. specifier t = s) (sort_by ?cmp ?kept)
                    = filter (\<lambda>t. specifier t = s) ?kept)"
    if total: "\<forall>a b. localeCompare sh a b \<le> 0 \<or> localeCompare sh b a \<le> 0"
      and trans: "\<forall>a b c. localeCompare sh a b \<le> 0 \<and> localeCompare sh b c \<le> 0
                            \<longrightarrow> localeCompare sh a c \<le> 0"
  proof -
    from total have t: "\<forall>a b. ?cmp a b \<le> 0 \<or> ?cmp b a \<le> 0" by blast
    from trans have tr: "\<forall>a b c. ?cmp a b \<le> 0 \<and> ?cmp b c \<le> 0 \<longrightarrow> ?cmp a c \<le> 0" by blast
    have a: "sorted_wrt (\<lambda>a b. ?cmp a b \<le> 0) (sort_by ?cmp ?kept)"
      by (rule sorted_sort_by[where compare = ?cmp, OF t tr])
    have b: "filter (\<lambda>t. specifier t = s) (sort_by ?cmp ?kept)
               = filter (\<lambda>t. specifier t = s) ?kept" for s
    proof (rule filter_sort_by)
      from total have "localeCompare sh s s \<le> 0" by blast
      then show "\<forall>x y. specifier x = s \<and> specifier y = s \<longrightarrow> ?cmp x y \<le> 0" by simp
    qed
    from a b show ?thesis by blast
  qed
  from res m s show ?thesis
    using distinct_allInstallSpecifiers[of h config installTargets]
      sorted_allInstallSpecifiers[of h config installTargets]
      set_allInstallSpecifiers[of h config installTargets]
    by blast
qed

lemma ex_scan_files:
  "scanImportsFromFiles example_scan_host example_host example_loadedFiles example_config
     = Inr [\<lparr>specifier = ''react'', all = False, default = True, namespace = False, named = []\<rparr>,
            \<lparr>specifier = ''react'', all = False, default = False, namespace = False,
             named = [''useState'']\<rparr>]"
  by code_simp

lemma ex_parseAll:
  "parseAll example_scan_host example_host example_loadedFiles
     = Inr [[\<lparr>specifier = ''react'', all = False, default = True, namespace = False, named = []\<rparr>],
            [\<lparr>specifier = ''react'', all = False, default = False, namespace = False,
              named = [''useState'']\<rparr>]]"
  by code_simp

lemma ex_localeCompare: "(localeCompare example_scan_host a b \<le> 0) = (a \<le> b)"
  by (auto simp: example_scan_host_def)

theorem aggregator_keeps_targets_witness:
  "size (mset (projr (scanImportsFromFiles example_scan_host example_host example_loadedFiles
                        example_config))) = 2
   \<and> sorted_wrt (\<lambda>a b. localeCompare example_scan_host (specifier a) (specifier b) \<le> 0)
        (projr (scanImportsFromFiles example_scan_host example_host example_loadedFiles
                  example_config))
   \<and> distinct (allInstallSpecifiers example_host example_config
                  (projr (scanImportsFromFiles example_scan_host example_host example_loadedFiles
                            example_config)))"
proof -
  have total: "\<forall>a b. localeCompare example_scan_host a b \<le> 0
                      \<or> localeCompare example_scan_host b a \<le> 0"
    unfolding ex_localeCompare by auto
  have trans: "\<forall>a b c. localeCompare example_scan_host a b \<le> 0
                          \<and> localeCompare example_scan_host b c \<le> 0
                        \<longrightarrow> localeCompare example_scan_host a c \<le> 0"
    unfolding ex_localeCompare by auto
  from aggregator_keeps_targets[OF ex_parseAll, of example_config
         "projr (scanImportsFromFiles example_scan_host example_host example_loadedFiles
                   example_config)"] total trans
  obtain targets where
    t: "scanImportsFromFiles example_scan_host example_host example_loadedFiles example_config
          = Inr targets"
    and m: "mset targets =
              mset (filter (\<lambda>target.
                              case findMatchingAliasEntry example_host example_config
                                     (specifier target) of
                                None \<Rightarrow> True
                              | Some aliasEntry \<Rightarrow> alias_type aliasEntry = Package)
                           (concat [[\<lparr>specifier = ''react'', all = False, default = True,
                                      namespace = False, named = []\<rparr>],
                                    [\<lparr>specifier = ''react'', all = False, default = False,
                                      namespace = False, named = [''useState'']\<rparr>]]))"
    and s: "sorted_wrt (\<lambda>a b. localeCompare example_scan_host (specifier a) (specifier b) \<le> 0)
              targets"
    and d: "distinct (allInstallSpecifiers example_host example_config
                  (projr (scanImportsFromFiles example_scan_host example_host example_loadedFiles
                            example_config)))"
    by blast
  from m have "size (mset targets) = 2"
    by (simp add: ex_defs)
  with t s d show ?thesis by simp
qed

text \<open>
  One file imports the default binding of \<^verbatim>\<open>react\<close>, another the named binding
  \<^verbatim>\<open>useState\<close>: the scan returns both targets, and \<^verbatim>\<open>install\<close> sees the one specifier.
\<close>

theorem aggregator_merges_counterexample:
  "scanImportsFromFiles example_scan_host example_host example_loadedFiles example_config
     = Inr [\<lparr>specifier = ''react'', all = False, default = True, namespace = False, named = []\<rparr>,
            \<lparr>specifier = ''react'', all = False, default = False, namespace = False,
             named = [''useState'']\<rparr>]
   \<and> allInstallSpecifiers example_host example_config
        [\<lparr>specifier = ''react'', all = False, default = True, namespace = False, named = []\<rparr>,
         \<lparr>specifier = ''react'', all = False, default = False, namespace = False,
          named = [''useState'']\<rparr>] = [''react'']"
  using ex_scan_files by (simp add: ex_defs inst_defs)

subsection \<open>A missing node_modules directory\<close>

text \<open>A bound that is enough stays enough: the result does not depend on it.\<close>

lemma scanDepList_mono:
  "scanDepList sh n depList = Some r \<Longrightarrow> n \<le> m \<Longrightarrow> scanDepList sh m depList = Some r"
proof (induction sh n depList arbitrary: r m rule: scanDepList.induct)
  case (1 sh n)
  then show ?case by simp
next
  case (2 sh n whitelistItem depList)
  from "2.prems"(1) obtain evs item evs' flat where
    item: "(if \<not> hasMagic sh whitelistItem
            then Some ([], [createInstallTarget whitelistItem True])
            else (case n of
                    0 \<Rightarrow> None
                  | Suc k \<Rightarrow>
                      (case scanDepList sh k
                              (globSync sh whitelistItem [] (pathResolve sh ''node_modules'')) of
                         None \<Rightarrow> None
                       | Some (evs, targets) \<Rightarrow>
                           Some (GlobSync (pathResolve sh ''node_modules'') # evs, targets))))
           = Some (evs, item)"
    and rest: "scanDepList sh n depList = Some (evs', flat)"
    and r: "r = (evs @ evs', item @ flat)"
    by (auto split: option.splits prod.splits)
  have item': "(if \<not> hasMagic sh whitelistItem
            then Some ([], [createInstallTarget whitelistItem True])
            else (case m of
                    0 \<Rightarrow> None
                  | Suc k \<Rightarrow>
                      (case scanDepList sh k
                              (globSync sh whitelistItem [] (pathResolve sh ''node_modules'')) of
                         None \<Rightarrow> None
                       | Some (evs, targets) \<Rightarrow>
                           Some (GlobSync (pathResolve sh ''node_modules'') # evs, targets))))
           = Some (evs, item)"
  proof (cases "hasMagic sh whitelistItem")
    case False
    with item show ?thesis by simp
  next
    case True
    with item obtain k where n: "n = Suc k" by (cases n) auto
    with "2.prems"(2) obtain k' where m: "m = Suc k'" and kk: "k \<le> k'" by (cases m) auto
    from item True n obtain evs0 where
      inner: "scanDepList sh k (globSync sh whitelistItem [] (pathResolve sh ''node_modules''))
                = Some (evs0, item)"
      and evs: "evs = GlobSync (pathResolve sh ''node_modules'') # evs0"
      by (auto split: option.splits prod.splits)
    from "2.IH"(1)[OF _ n inner kk] True
    have "scanDepList sh k' (globSync sh whitelistItem [] (pathResolve sh ''node_modules''))
                = Some (evs0, item)" by simp
    with True m evs show ?thesis by simp
  qed
  have rest': "scanDepList sh m depList = Some (evs', flat)"
    using "2.IH"(2) item rest "2.prems"(2) by auto
  from item' rest' r show ?case by simp
qed

text \<open>
  The expansion ends, at depth one, when no name that a pattern expands to is a pattern
  again.
\<close>

lemma scanDepList_no_magic:
  "\<forall>e \<in> set depList. \<not> hasMagic sh e \<Longrightarrow>
     scanDepList sh n depList = Some ([], map (\<lambda>e. createInstallTarget e True) depList)"
proof (induction depList)
  case Nil
  show ?case by simp
next
  case (Cons e depList)
  then have a: "\<not> hasMagic sh e"
    and b: "scanDepList sh n depList = Some ([], map (\<lambda>e. createInstallTarget e True) depList)"
    by simp_all
  show ?case unfolding scanDepList.simps(2)[of sh n e depList] b using a by simp
qed

lemma scanDepList_plain:
  assumes "\<not> hasMagic sh p" and "scanDepList sh m depList = Some (evs, flat)"
  shows "scanDepList sh m (p # depList) = Some (evs, createInstallTarget p True # flat)"
  unfolding scanDepList.simps(2)[of sh m p depList] assms(2) using assms(1) by simp

lemma scanDepList_glob:
  assumes "hasMagic sh p"
    and "scanDepList sh n (globSync sh p [] (pathResolve sh ''node_modules'')) = Some (evs0, item)"
    and "scanDepList sh (Suc n) depList = Some (evs, flat)"
  shows "scanDepList sh (Suc n) (p # depList)
           = Some ((GlobSync (pathResolve sh ''node_modules'') # evs0) @ evs, item @ flat)"
proof -
  have "scanDepList sh (Suc n) (p # depList) =
     (case (if \<not> hasMagic sh p
            then Some ([], [createInstallTarget p True])
            else (case Suc n of
                    0 \<Rightarrow> None
                  | Suc k \<Rightarrow>
                      (case scanDepList sh k
                              (globSync sh p [] (pathResolve sh ''node_modules'')) of
                         None \<Rightarrow> None
                       | Some (evs, targets) \<Rightarrow>
                           Some (GlobSync (pathResolve sh ''node_modules'') # evs, targets)))) of
        None \<Rightarrow> None
      | Some (evs, item) \<Rightarrow>
          (case scanDepList sh (Suc n) depList of
             None \<Rightarrow> None
           | Some (evs', flat) \<Rightarrow> Some (evs @ evs', item @ flat)))"
    by (rule scanDepList.simps(2))
  also have "\<dots> = Some ((GlobSync (pathResolve sh ''node_modules'') # evs0) @ evs, item @ flat)"
    unfolding assms(2,3) nat.case using assms(1) by (simp del: scanDepList.simps)
  finally show ?thesis .
qed

lemma scanDepList_one_level:
  assumes "\<forall>p \<in> set depList. hasMagic sh p \<longrightarrow>
             (\<forall>f \<in> set (globSync sh p [] (pathResolve sh ''node_modules'')). \<not> hasMagic sh f)"
  shows "\<exists>r. scanDepList sh (Suc n) depList = Some r"
  using assms
proof (induction depList)
  case Nil
  have "scanDepList sh (Suc n) [] = Some ([], [])" by (rule scanDepList.simps(1))
  then show ?case by (rule exI)
next
  case (Cons p depList)
  have tl: "\<forall>q \<in> set depList. hasMagic sh q \<longrightarrow>
       (\<forall>f \<in> set (globSync sh q [] (pathResolve sh ''node_modules'')). \<not> hasMagic sh f)"
  proof
    fix q assume "q \<in> set depList"
    then have "q \<in> set (p # depList)" by simp
    with Cons.prems show "hasMagic sh q \<longrightarrow>
       (\<forall>f \<in> set (globSync sh q [] (pathResolve sh ''node_modules'')). \<not> hasMagic sh f)"
      by (rule bspec)
  qed
  from Cons.IH[OF tl] obtain r where r: "scanDepList sh (Suc n) depList = Some r" ..
  obtain evs flat where rf: "r = (evs, flat)" by (cases r)
  show ?case
  proof (cases "hasMagic sh p")
    case False
    from scanDepList_plain[OF False r[unfolded rf]] show ?thesis by (rule exI)
  next
    case True
    have "p \<in> set (p # depList)" by simp
    with Cons.prems have "hasMagic sh p \<longrightarrow>
       (\<forall>f \<in> set (globSync sh p [] (pathResolve sh ''node_modules'')). \<not> hasMagic sh f)"
      by (rule bspec)
    with True have
      "\<forall>f \<in> set (globSync sh p [] (pathResolve sh ''node_modules'')). \<not> hasMagic sh f"
      by (rule mp[rotated])
    from scanDepList_glob[OF True scanDepList_no_magic[OF this, of n] r[unfolded rf]]
    show ?thesis by (rule exI)
  qed
qed

text \<open>
  C9, as the code has it: with no \<^verbatim>\<open>node_modules\<close> directory, no remote manifest and no
  Plug'n'Play, \<^verbatim>\<open>install\<close> logs the error and returns the failed result, before it
  resolves anything. In the install command the check comes after the enumeration of
  files, not before it. Provided that the expansion of the glob patterns among the known
  entry points ends (within some depth \<open>n0\<close>; every bound from \<open>n0\<close> on then gives the same
  run), the command lists \<^verbatim>\<open>node_modules\<close> for these patterns, then enumerates and reads
  the source files, where an error of the scan ends it. With no target at all it ends
  with \<^verbatim>\<open>Nothing to install\<close> and the check is not reached; otherwise the output
  directory is removed, the error is logged and the process exits with failure.
\<close>

theorem missing_node_modules:
  assumes "webDependencies config = None" and "\<not> pnp h" and "\<not> nodeModulesInstalled h"
    and "scanDepList sh n0 (case knownEntrypoints config of None \<Rightarrow> [] | Some es \<Rightarrow> es)
           = Some (knownEvs, known)"
    and "n0 \<le> n"
  shows "install h installTargets lockfile config
           = ([LogError NoNodeModules], Inr FAILED_INSTALL_RETURN)
         \<and> command sh h n cwd config lockfile
             = (case scanImports sh h config of
                  (scanEvs, Inl err) \<Rightarrow> Some (knownEvs @ scanEvs, ScanThrown err)
                | (scanEvs, Inr scanned) \<Rightarrow>
                    (if known @ scanned = []
                     then Some (knownEvs @ scanEvs @ [LogError NothingToInstall], Done)
                     else Some (knownEvs @ scanEvs
                                  @ [Rimraf (dest config), LogError NoNodeModules, ProcessExit],
                                ExitFailure)))"
proof -
  have i: "install h T L config = ([LogError NoNodeModules], Inr FAILED_INSTALL_RETURN)" for T L
    using assms(1-3) by (simp add: install_def)
  have r: "run h config lockfile T
             = ([Rimraf (dest config), LogError NoNodeModules],
                Returned \<lparr>success = False, hasError = True, importMap = None,
                          newLockfile = None\<rparr>)" if "T \<noteq> []" for T
    using that assms(1) by (simp add: run_def i)
  from scanDepList_mono[OF assms(4,5)] have
    "scanDepList sh n (case knownEntrypoints config of None \<Rightarrow> [] | Some es \<Rightarrow> es)
       = Some (knownEvs, known)" .
  then have k: "(case knownEntrypoints config of
              None \<Rightarrow> Some ([], [])
            | Some entrypoints \<Rightarrow> scanDepList sh n entrypoints)
           = Some (knownEvs, known)"
    by (cases "knownEntrypoints config") simp_all
  obtain scanEvs res where s: "scanImports sh h config = (scanEvs, res)"
    by (cases "scanImports sh h config")
  have c: "command sh h n cwd config lockfile
             = (case scanImports sh h config of
                  (scanEvs, Inl err) \<Rightarrow> Some (knownEvs @ scanEvs, ScanThrown err)
                | (scanEvs, Inr scanned) \<Rightarrow>
                    (if known @ scanned = []
                     then Some (knownEvs @ scanEvs @ [LogError NothingToInstall], Done)
                     else Some (knownEvs @ scanEvs
                                  @ [Rimraf (dest config), LogError NoNodeModules, ProcessExit],
                                ExitFailure)))"
  proof (cases res)
    case (Inl err)
    with s k assms(1) show ?thesis
      by (simp add: command_def getInstallTargets_def)
  next
    case (Inr scanned)
    show ?thesis
    proof (cases "known @ scanned = []")
      case True
      with s k Inr assms(1) show ?thesis
        by (simp add: command_def getInstallTargets_def)
    next
      case False
      with s k Inr assms(1) r[OF False] show ?thesis
        by (simp add: command_def getInstallTargets_def)
    qed
  qed
  from i c show ?thesis by blast
qed

lemma ex_scanImports:
  "scanImports example_scan_host (example_host\<lparr>nodeModulesInstalled := False\<rparr>) example_config
   = ([GlobSync ''/app/src'', ReadFile ''/app/src/a.js'', ReadFile ''/app/src/b.js''],
      Inr [\<lparr>specifier = ''react'', all = False, default = True, namespace = False,
            named = []\<rparr>,
           \<lparr>specifier = ''react'', all = False, default = False, namespace = False,
            named = [''useState'']\<rparr>])"
  by code_simp

lemma ex_scanImports_known:
  "scanImports example_scan_host (example_host\<lparr>nodeModulesInstalled := False\<rparr>)
     (example_config\<lparr>knownEntrypoints := Some [''preact/dist/*.js'']\<rparr>)
   = ([GlobSync ''/app/src'', ReadFile ''/app/src/a.js'', ReadFile ''/app/src/b.js''],
      Inr [\<lparr>specifier = ''react'', all = False, default = True, namespace = False,
            named = []\<rparr>,
           \<lparr>specifier = ''react'', all = False, default = False, namespace = False,
            named = [''useState'']\<rparr>])"
  by code_simp

lemma ex_scanDepList:
  "scanDepList example_scan_host 1 [''preact/dist/*.js'']
   = Some ([GlobSync ''/app/node_modules''],
           [createInstallTarget ''preact/dist/preact.js'' True,
            createInstallTarget ''preact/dist/preact.module.js'' True])"
  by code_simp

theorem missing_node_modules_witness:
  "command example_scan_host (example_host\<lparr>nodeModulesInstalled := False\<rparr>) 2 ''/app''
     (example_config\<lparr>knownEntrypoints := Some [''preact/dist/*.js'']\<rparr>) None
   = Some ([GlobSync ''/app/node_modules'', GlobSync ''/app/src'', ReadFile ''/app/src/a.js'',
            ReadFile ''/app/src/b.js'', Rimraf ''/app/web_modules'', LogError NoNodeModules,
            ProcessExit], ExitFailure)"
proof -
  let ?h = "example_host\<lparr>nodeModulesInstalled := False\<rparr>"
  let ?c = "example_config\<lparr>knownEntrypoints := Some [''preact/dist/*.js'']\<rparr>"
  have a: "webDependencies ?c = None" by (simp add: example_config_def)
  have b: "\<not> pnp ?h" by (simp add: example_host_def)
  have c: "\<not> nodeModulesInstalled ?h" by simp
  have k: "scanDepList example_scan_host 1
             (case knownEntrypoints ?c of None \<Rightarrow> [] | Some es \<Rightarrow> es)
           = Some ([GlobSync ''/app/node_modules''],
                   [createInstallTarget ''preact/dist/preact.js'' True,
                    createInstallTarget ''preact/dist/preact.module.js'' True])"
    using ex_scanDepList by simp
  have n: "(1::nat) \<le> 2" by simp
  have d: "dest ?c = ''/app/web_modules''" by (simp add: example_config_def)
  from missing_node_modules[OF a b c k n, where cwd = "''/app''" and lockfile = None]
  show ?thesis by (simp add: d ex_scanImports_known)
qed

text \<open>
  The trace of the command: the mount directory is enumerated, the files are read and
  the output directory is removed before the error is logged.
\<close>

theorem missing_node_modules_counterexample:
  "\<not> nodeModulesInstalled (example_host\<lparr>nodeModulesInstalled := False\<rparr>)
   \<and> webDependencies example_config = None
   \<and> command example_scan_host (example_host\<lparr>nodeModulesInstalled := False\<rparr>) 0 ''/app''
       example_config None
     = Some ([GlobSync ''/app/src'', ReadFile ''/app/src/a.js'', ReadFile ''/app/src/b.js'',
              Rimraf ''/app/web_modules'', LogError NoNodeModules, ProcessExit], ExitFailure)"
  using ex_scanImports
  by (simp add: command_def getInstallTargets_def run_def install_def example_config_def
        example_host_def)

end
